theory Spec2Isabelle
  imports Complex_Main
begin

section \<open>Gain reconciliation and decision logic of the alert orchestrator\<close>

text \<open>
  Shallow embedding of \<^verbatim>\<open>src/shared/correct_calculations.py\<close>,
  \<^verbatim>\<open>src/shared/models.py\<close> and the decision code of
  \<^verbatim>\<open>src/core/alert_logic.py\<close>.  Python floats are modelled as
  \<^typ>\<open>real\<close>, Python ints as \<^typ>\<open>int\<close>, raised exceptions as the
  left injection of a sum type.
\<close>

subsection \<open>Exceptions\<close>

datatype error = ValueError | IndexError | TypeError

subsection \<open>Instants (\<^verbatim>\<open>datetime\<close>)\<close>

text \<open>
  A \<^verbatim>\<open>datetime\<close> is either naive (a wall-clock reading, in microseconds) or
  aware (a wall-clock reading together with its offset from UTC, both in microseconds).
\<close>

datatype datetime = Naive int | Aware int int

text \<open>
  \<^verbatim>\<open>normalize_timestamp\<close>: a naive value gets \<^verbatim>\<open>tzinfo=utc\<close> attached to
  the same wall-clock reading, an aware value is converted to UTC.
\<close>

fun normalize_timestamp :: "datetime \<Rightarrow> datetime" where
  "normalize_timestamp (Naive w) = Aware w 0"
| "normalize_timestamp (Aware w off) = Aware (w - off) 0"

text \<open>
  Python's \<^verbatim>\<open>==\<close> on datetimes: two aware values are equal when they denote the
  same UTC instant, two naive values when their readings agree, and a naive value is never
  equal to an aware one (the comparison returns False, it does not raise).
\<close>

fun dt_eq :: "datetime \<Rightarrow> datetime \<Rightarrow> bool" where
  "dt_eq (Naive a) (Naive b) = (a = b)"
| "dt_eq (Aware a oa) (Aware b ob) = (a - oa = b - ob)"
| "dt_eq (Naive a) (Aware b ob) = False"
| "dt_eq (Aware a oa) (Naive b) = False"

text \<open>The UTC instant of a normalised value, in microseconds.\<close>

fun utc_instant :: "datetime \<Rightarrow> int" where
  "utc_instant (Aware w off) = w - off"
| "utc_instant (Naive w) = w"

text \<open>
  \<^verbatim>\<open>dt.timestamp()\<close>: seconds since the epoch.  For a naive value Python uses
  the local time zone of the process; the pipeline only calls it on normalised (aware)
  values, and the model reads a naive value as UTC.
\<close>

definition timestamp_of :: "datetime \<Rightarrow> real" where
  "timestamp_of d = real_of_int (utc_instant d) / 1000000"

text \<open>
  \<^verbatim>\<open>(a - b).total_seconds()\<close>: subtracting a naive from an aware value (or the
  converse) raises TypeError, modelled as \<open>None\<close>.
\<close>

fun dt_sub_seconds :: "datetime \<Rightarrow> datetime \<Rightarrow> real option" where
  "dt_sub_seconds (Aware a oa) (Aware b ob) = Some (real_of_int ((a - oa) - (b - ob)) / 1000000)"
| "dt_sub_seconds (Naive a) (Naive b) = Some (real_of_int (a - b) / 1000000)"
| "dt_sub_seconds (Naive a) (Aware b ob) = None"
| "dt_sub_seconds (Aware a oa) (Naive b) = None"

subsection \<open>Transactions (\<^verbatim>\<open>models.Transaction\<close>)\<close>

record Transaction =
  timestamp :: datetime
  wallet_address :: string
  market_id :: string
  asset_symbol :: string
  amount :: real
  transaction_type :: string
  tx_notes :: "string option"
  created_at :: datetime

text \<open>
  \<^verbatim>\<open>str.isspace\<close> on the code points below 256, and the test
  \<^verbatim>\<open>not s or not s.strip()\<close> used by the validators.
\<close>

definition is_space :: "char \<Rightarrow> bool" where
  "is_space c = (let k = (of_char c :: nat) in
     (9 \<le> k \<and> k \<le> 13) \<or> (28 \<le> k \<and> k \<le> 32) \<or> k = 133 \<or> k = 160)"

definition blank :: "string \<Rightarrow> bool" where
  "blank s = list_all is_space s"

text \<open>
  \<^verbatim>\<open>Transaction.__post_init__\<close>: the checks in source order; \<open>Inl ValueError\<close>
  is the raised exception, \<open>Inr t\<close> the constructed object.
\<close>

definition Transaction_post_init :: "Transaction \<Rightarrow> error + Transaction" where
  "Transaction_post_init t =
     (if blank (wallet_address t) then Inl ValueError
      else if blank (market_id t) then Inl ValueError
      else if blank (asset_symbol t) then Inl ValueError
      else if transaction_type t \<noteq> ''deposit'' \<and> transaction_type t \<noteq> ''withdrawal''
        then Inl ValueError
      else if transaction_type t = ''deposit'' \<and> amount t \<le> 0 then Inl ValueError
      else if transaction_type t = ''withdrawal'' \<and> amount t \<ge> 0 then Inl ValueError
      else Inr t)"

subsection \<open>Timebase Builder (\<^verbatim>\<open>create_unified_timebase\<close>)\<close>

text \<open>
  Both inputs are normalised, put into one set and sorted.  Every element of the set is
  an aware UTC value, so the set is represented by the distinct UTC instants.
\<close>

definition create_unified_timebase :: "datetime list \<Rightarrow> datetime list \<Rightarrow> datetime list" where
  "create_unified_timebase position_timestamps transaction_timestamps =
     (let normalized_position = map normalize_timestamp position_timestamps;
          normalized_transaction = map normalize_timestamp transaction_timestamps;
          all_timestamps = remdups (map utc_instant (normalized_position @ normalized_transaction))
      in map (\<lambda>i. Aware i 0) (sort all_timestamps))"

subsection \<open>Position Interpolator (\<^verbatim>\<open>interpolate_positions_on_timebase\<close>)\<close>

text \<open>
  \<^verbatim>\<open>numpy.interp\<close> (library code, modelled from its implementation): the sample
  index is the last \<open>j\<close> with \<open>xp[j] \<le> x\<close>, found by scanning from index 1 while
  \<open>x \<ge> xp[i]\<close>; numpy's bisection returns the same index on the non-decreasing
  \<open>xp\<close> it requires.  Outside the sampled range the edge value is held.  An empty
  \<open>xp\<close> raises ValueError, and so do \<open>xp\<close> and \<open>fp\<close> of different lengths.
\<close>

definition interp_index :: "real \<Rightarrow> real list \<Rightarrow> nat" where
  "interp_index x xp = length (takeWhile (\<lambda>a. a \<le> x) (tl xp))"

definition np_interp_point :: "real list \<Rightarrow> real list \<Rightarrow> real \<Rightarrow> real" where
  "np_interp_point xp fp x =
     (if x > last xp then last fp
      else if x < hd xp then hd fp
      else (let j = interp_index x xp in
            if j = length xp - 1 then fp ! j
            else if xp ! j = x then fp ! j
            else ((fp ! (j + 1) - fp ! j) / (xp ! (j + 1) - xp ! j)) * (x - xp ! j) + fp ! j))"

definition np_interp :: "real list \<Rightarrow> real list \<Rightarrow> real list \<Rightarrow> error + real list" where
  "np_interp x xp fp =
     (if xp = [] then Inl ValueError
      else if length fp \<noteq> length xp then Inl ValueError
      else Inr (map (np_interp_point xp fp) x))"

text \<open>
  The cubic spline of \<^verbatim>\<open>scipy.interpolate.interp1d\<close> is library code outside the
  repository: it is a parameter, \<open>None\<close> when scipy cannot be imported, and otherwise a
  function giving the spline value at a point, \<open>None\<close> for NaN (a point outside the
  sampled range, \<^verbatim>\<open>bounds_error=False, fill_value=nan\<close>).
\<close>

type_synonym interp1d = "(real list \<Rightarrow> real list \<Rightarrow> real \<Rightarrow> real option) option"

definition interpolate_positions_on_timebase ::
  "interp1d \<Rightarrow> datetime list \<Rightarrow> real list \<Rightarrow> datetime list \<Rightarrow> string \<Rightarrow> error + real list" where
  "interpolate_positions_on_timebase scipy position_timestamps position_values unified_timebase
       interpolation_method =
     (if length position_timestamps \<noteq> length position_values then Inl ValueError
      else
        let normalized_position_timestamps = map normalize_timestamp position_timestamps;
            position_numeric = map timestamp_of normalized_position_timestamps;
            unified_numeric = map timestamp_of unified_timebase
        in if interpolation_method = ''linear''
             then np_interp unified_numeric position_numeric position_values
           else if interpolation_method = ''cubic'' then
             (case scipy of
                None \<Rightarrow> np_interp unified_numeric position_numeric position_values
              | Some f \<Rightarrow>
                  if length position_values < 4
                    then np_interp unified_numeric position_numeric position_values
                  else Inr (map (\<lambda>x. case f position_numeric position_values x of
                                         Some v \<Rightarrow> v
                                       | None \<Rightarrow> np_interp_point position_numeric position_values x)
                                unified_numeric))
           else Inl ValueError)"

subsection \<open>numpy helpers used by the Transaction Mapper\<close>

text \<open>Python indexing and slicing: a negative index counts from the end.\<close>

definition py_get :: "'a list \<Rightarrow> int \<Rightarrow> error + 'a" where
  "py_get xs i =
     (let n = int (length xs); j = (if i < 0 then i + n else i)
      in if 0 \<le> j \<and> j < n then Inr (xs ! nat j) else Inl IndexError)"

definition py_set :: "'a list \<Rightarrow> int \<Rightarrow> 'a \<Rightarrow> error + 'a list" where
  "py_set xs i v =
     (let n = int (length xs); j = (if i < 0 then i + n else i)
      in if 0 \<le> j \<and> j < n then Inr (xs[nat j := v]) else Inl IndexError)"

definition slice_bound :: "int \<Rightarrow> int \<Rightarrow> int" where
  "slice_bound n i = (if i < 0 then max 0 (i + n) else min i n)"

definition py_slice :: "'a list \<Rightarrow> int \<Rightarrow> int \<Rightarrow> 'a list" where
  "py_slice xs s e =
     (let n = int (length xs); s' = slice_bound n s; e' = slice_bound n e
      in take (nat (e' - s')) (drop (nat s') xs))"

text \<open>\<^verbatim>\<open>np.diff\<close>, \<^verbatim>\<open>np.cumsum\<close>, \<^verbatim>\<open>np.median\<close>, \<^verbatim>\<open>np.std\<close>,
  \<^verbatim>\<open>np.isclose\<close> (default tolerances) and \<^verbatim>\<open>np.argmin\<close>.\<close>

fun np_diff :: "real list \<Rightarrow> real list" where
  "np_diff (a # b # xs) = (b - a) # np_diff (b # xs)"
| "np_diff _ = []"

fun cumsum_from :: "real \<Rightarrow> real list \<Rightarrow> real list" where
  "cumsum_from acc [] = []"
| "cumsum_from acc (x # xs) = (acc + x) # cumsum_from (acc + x) xs"

definition np_cumsum :: "real list \<Rightarrow> real list" where
  "np_cumsum xs = cumsum_from 0 xs"

definition np_median :: "real list \<Rightarrow> real" where
  "np_median xs =
     (let s = sort xs; n = length xs
      in if odd n then s ! (n div 2) else (s ! (n div 2 - 1) + s ! (n div 2)) / 2)"

definition np_mean :: "real list \<Rightarrow> real" where
  "np_mean xs = sum_list xs / real (length xs)"

definition np_std :: "real list \<Rightarrow> real" where
  "np_std xs = sqrt (np_mean (map (\<lambda>x. (x - np_mean xs)\<^sup>2) xs))"

definition np_isclose :: "real \<Rightarrow> real \<Rightarrow> bool" where
  "np_isclose a b = (\<bar>a - b\<bar> \<le> 1 / 100000000 + (1 / 100000) * \<bar>b\<bar>)"

fun argmin_from :: "nat \<Rightarrow> real \<Rightarrow> nat \<Rightarrow> real list \<Rightarrow> nat" where
  "argmin_from best bv k [] = best"
| "argmin_from best bv k (x # xs) =
     (if x < bv then argmin_from k x (k + 1) xs else argmin_from best bv (k + 1) xs)"

definition np_argmin :: "real list \<Rightarrow> nat" where
  "np_argmin xs = (case xs of [] \<Rightarrow> 0 | x # rest \<Rightarrow> argmin_from 0 x 1 rest)"

definition np_min :: "real list \<Rightarrow> real" where
  "np_min xs = foldl min (hd xs) (tl xs)"

definition int_max :: "int list \<Rightarrow> int" where
  "int_max xs = foldl max (hd xs) (tl xs)"

fun first_index :: "('a \<Rightarrow> bool) \<Rightarrow> 'a list \<Rightarrow> nat option" where
  "first_index P [] = None"
| "first_index P (x # xs) =
     (if P x then Some 0 else (case first_index P xs of None \<Rightarrow> None | Some j \<Rightarrow> Some (j + 1)))"

subsection \<open>Transaction Mapper (\<^verbatim>\<open>create_transaction_vectors_on_timebase\<close>)\<close>

text \<open>
  \<open>pos_mask\<close>: which timebase points are original position samples; \<open>None\<close> when
  the set of position timestamps is absent or empty.  The set is given by its elements,
  membership is Python's \<^verbatim>\<open>in\<close>.
\<close>

definition pos_mask_of :: "datetime list \<Rightarrow> datetime list \<Rightarrow> bool list option" where
  "pos_mask_of position_timestamps_set unified_timebase =
     (if position_timestamps_set = [] then None
      else Some (map (\<lambda>tb. list_ex (dt_eq tb) position_timestamps_set) unified_timebase))"

text \<open>\<^verbatim>\<open>np.where(pos_mask)[0]\<close>\<close>

definition true_indices :: "bool list \<Rightarrow> int list" where
  "true_indices pos_mask = map int (filter (\<lambda>k. pos_mask ! k) [0..<length pos_mask])"

text \<open>The two \<^verbatim>\<open>while\<close> loops of the snap policies.\<close>

function snap_next_loop :: "bool list \<Rightarrow> int \<Rightarrow> int \<Rightarrow> int" where
  "snap_next_loop pos_mask n i =
     (if i < n \<and> \<not> pos_mask ! nat i then snap_next_loop pos_mask n (i + 1) else i)"
  by pat_completeness auto
termination
  by (relation "measure (\<lambda>(m, n, i). nat (n - i))") auto

function snap_prev_loop :: "bool list \<Rightarrow> int \<Rightarrow> int" where
  "snap_prev_loop pos_mask i =
     (if i \<ge> 0 \<and> \<not> pos_mask ! nat i then snap_prev_loop pos_mask (i - 1) else i)"
  by pat_completeness auto
termination
  by (relation "measure (\<lambda>(m, i). nat (i + 1))") auto

text \<open>
  The nearest-sample policy.  \<open>None\<close> is "fell through to the next policy test".  A
  TypeError in the time differences, or an empty candidate array, is caught by the
  \<^verbatim>\<open>except\<close> clause, which answers by index distance.
\<close>

definition snap_nearest :: "datetime list \<Rightarrow> bool list \<Rightarrow> int \<Rightarrow> Transaction \<Rightarrow> int option" where
  "snap_nearest unified_timebase pos_mask idx tx =
     (if list_ex (\<lambda>b. b) pos_mask then
        (let pos_indices = true_indices pos_mask;
             fallback = pos_indices ! np_argmin (map (\<lambda>k. \<bar>real_of_int (k - idx)\<bar>) pos_indices)
         in case those (map (\<lambda>k. dt_sub_seconds (unified_timebase ! nat k) (timestamp tx))
                          pos_indices) of
              None \<Rightarrow> Some fallback
            | Some ds \<Rightarrow>
                (let deltas = map abs ds;
                     min_d = np_min deltas;
                     candidates = map fst (filter (\<lambda>(k, d). np_isclose d min_d)
                                                  (zip pos_indices deltas))
                 in if candidates = [] then Some fallback else Some (int_max candidates)))
      else None)"

text \<open>
  \<^verbatim>\<open>_scan\<close>: the best candidate step in the local window, by smallest distance to
  the base index and then largest \<open>|z|\<close>; the state is the best index with its score.
\<close>

definition scan_step ::
  "real list \<Rightarrow> real list \<Rightarrow> real \<Rightarrow> real \<Rightarrow> real \<Rightarrow> real \<Rightarrow> real \<Rightarrow> bool \<Rightarrow> int \<Rightarrow> int \<Rightarrow>
   (int \<times> int \<times> real) option \<Rightarrow> nat \<Rightarrow> (int \<times> int \<times> real) option" where
  "scan_step local_dP z sign mag alpha beta z_threshold ignore_magnitude start idx best j =
     (let val = local_dP ! j; zval = z ! j in
      if sign * val \<le> 0 \<or> \<bar>zval\<bar> < z_threshold then best
      else if \<not> ignore_magnitude \<and> mag > 0 \<and> \<not> (alpha \<le> \<bar>val\<bar> / mag \<and> \<bar>val\<bar> / mag \<le> beta)
        then best
      else (let dist = \<bar>(start + int j) - idx\<bar>; score = - \<bar>zval\<bar> in
            case best of
              None \<Rightarrow> Some (start + int j, dist, score)
            | Some (bi, bd, bs) \<Rightarrow>
                if dist < bd \<or> (dist = bd \<and> score < bs) then Some (start + int j, dist, score)
                else best))"

definition scan ::
  "real list \<Rightarrow> real list \<Rightarrow> real \<Rightarrow> real \<Rightarrow> real \<Rightarrow> real \<Rightarrow> real \<Rightarrow> bool \<Rightarrow> int \<Rightarrow> int \<Rightarrow> int option" where
  "scan local_dP z sign mag alpha beta z_threshold ignore_magnitude start idx =
     map_option fst
       (foldl (scan_step local_dP z sign mag alpha beta z_threshold ignore_magnitude start idx)
              None [0..<length local_dP])"

text \<open>
  The final fallback of the spike-detection policy: the first non-flat step of the
  expected sign in a forward window, mapped to its right edge.
\<close>

definition forward_fallback :: "real list \<Rightarrow> int \<Rightarrow> int \<Rightarrow> real \<Rightarrow> int \<Rightarrow> int option" where
  "forward_fallback dP n window_bins sign idx =
     (let max_forward = max 8 (window_bins * 3);
          f_start = idx;
          f_end = min (n - 2) (idx + max_forward)
      in if f_end > f_start then
           (case first_index (\<lambda>v. \<bar>v\<bar> > 1 / 1000000000 \<and> sign * v > 0)
                   (py_slice dP f_start (f_end + 1)) of
              Some j \<Rightarrow> Some (min (f_start + int j + 1) (n - 1))
            | None \<Rightarrow> None)
         else None)"

text \<open>The spike-detection policy; \<open>None\<close> is "fell through to the default".\<close>

definition detect_spike ::
  "real list \<Rightarrow> int \<Rightarrow> int \<Rightarrow> real \<Rightarrow> real \<times> real \<Rightarrow> int \<Rightarrow> Transaction \<Rightarrow> int option" where
  "detect_spike interpolated_positions n window_bins z_threshold magnitude_band idx tx =
     (let start = max 1 (idx - window_bins);
          end_idx = min (n - 1) (idx + window_bins);
          dP = np_diff interpolated_positions;
          local_dP = py_slice dP start (end_idx + 1)
      in if local_dP = [] then None
         else
           (let med = np_median local_dP;
                mad = np_median (map (\<lambda>v. \<bar>v - med\<bar>) local_dP);
                scale = (if mad > 0 then (14826 / 10000) * mad
                         else if np_std local_dP > 0 then np_std local_dP else 1);
                z = map (\<lambda>v. (v - med) / scale) local_dP;
                sign = (if transaction_type tx = ''withdrawal'' then - 1 else 1);
                mag = \<bar>amount tx\<bar>;
                alpha = fst magnitude_band;
                beta = snd magnitude_band
            in case scan local_dP z sign mag alpha beta z_threshold False start idx of
                 Some best_i \<Rightarrow> Some (min (best_i + 1) (n - 1))
               | None \<Rightarrow>
                  (case scan local_dP z sign mag alpha beta z_threshold True start idx of
                     Some best_i \<Rightarrow> Some (min (best_i + 1) (n - 1))
                   | None \<Rightarrow> forward_fallback dP n window_bins sign idx)))"

text \<open>
  \<^verbatim>\<open>choose_index_for_tx\<close>.  \<open>method\<close> is the alignment method after
  \<^verbatim>\<open>(alignment_method or "none").strip().lower()\<close>; the policy tests are in source
  order.
\<close>

definition choose_index_for_tx ::
  "string \<Rightarrow> datetime list \<Rightarrow> bool list option \<Rightarrow> real list option \<Rightarrow> int \<Rightarrow> real \<Rightarrow> real \<times> real \<Rightarrow>
   int \<Rightarrow> Transaction \<Rightarrow> int" where
  "choose_index_for_tx method unified_timebase pos_mask interpolated_positions window_bins
       z_threshold magnitude_band idx tx =
     (let n = int (length unified_timebase);
          allow_detect = (method = ''detect_spike'' \<and> interpolated_positions \<noteq> None)
      in if method = ''right_open'' then min (idx + 1) (n - 1)
         else if method = ''snap_to_next_pos'' \<and> pos_mask \<noteq> None then
           (let m = the pos_mask; i = snap_next_loop m n idx
            in if i \<ge> n then (if list_ex (\<lambda>b. b) m then last (true_indices m) else idx)
               else i)
         else if method = ''snap_to_prev_pos'' \<and> pos_mask \<noteq> None then
           (let m = the pos_mask; i = snap_prev_loop m idx
            in if i < 0 then (if list_ex (\<lambda>b. b) m then hd (true_indices m) else idx)
               else i)
         else
           (case (if method = ''snap_to_nearest_pos'' \<and> pos_mask \<noteq> None
                  then snap_nearest unified_timebase (the pos_mask) idx tx else None) of
              Some r \<Rightarrow> r
            | None \<Rightarrow>
               (case (if allow_detect \<and> 0 < idx \<and> idx < n
                      then detect_spike (the interpolated_positions) n window_bins z_threshold
                             magnitude_band idx tx
                      else None) of
                  Some r \<Rightarrow> r
                | None \<Rightarrow> idx)))"

text \<open>
  One iteration of the mapping loop.  \<^verbatim>\<open>matches\<close> are the timebase indices equal
  (Python \<^verbatim>\<open>==\<close>) to the transaction's timestamp; without a match the event is only
  logged.  The vectors are written with \<^verbatim>\<open>vector[idx] = ...\<close>.
\<close>

definition map_transaction ::
  "string \<Rightarrow> datetime list \<Rightarrow> bool list option \<Rightarrow> real list option \<Rightarrow> int \<Rightarrow> real \<Rightarrow> real \<times> real \<Rightarrow>
   real list \<times> real list \<Rightarrow> Transaction \<Rightarrow> error + (real list \<times> real list)" where
  "map_transaction method unified_timebase pos_mask interpolated_positions window_bins
       z_threshold magnitude_band vectors transaction =
     (let deposit_vector = fst vectors; withdrawal_vector = snd vectors;
          matches = filter (\<lambda>k. dt_eq (unified_timebase ! k) (timestamp transaction))
                      [0..<length unified_timebase]
      in case matches of
           [] \<Rightarrow> Inr (deposit_vector, withdrawal_vector)
         | base_idx # rest \<Rightarrow>
            (let idx = choose_index_for_tx method unified_timebase pos_mask interpolated_positions
                         window_bins z_threshold magnitude_band (int base_idx) transaction
             in if transaction_type transaction = ''deposit'' then
                  (case py_set deposit_vector idx (amount transaction) of
                     Inl e \<Rightarrow> Inl e
                   | Inr d \<Rightarrow> Inr (d, withdrawal_vector))
                else if transaction_type transaction = ''withdrawal'' then
                  (case py_set withdrawal_vector idx \<bar>amount transaction\<bar> of
                     Inl e \<Rightarrow> Inl e
                   | Inr w \<Rightarrow> Inr (deposit_vector, w))
                else Inr (deposit_vector, withdrawal_vector)))"

fun map_transactions ::
  "string \<Rightarrow> datetime list \<Rightarrow> bool list option \<Rightarrow> real list option \<Rightarrow> int \<Rightarrow> real \<Rightarrow> real \<times> real \<Rightarrow>
   real list \<times> real list \<Rightarrow> Transaction list \<Rightarrow> error + (real list \<times> real list)" where
  "map_transactions method tb pm ip wb zt mb vectors [] = Inr vectors"
| "map_transactions method tb pm ip wb zt mb vectors (transaction # transactions) =
     (case map_transaction method tb pm ip wb zt mb vectors transaction of
        Inl e \<Rightarrow> Inl e
      | Inr vectors' \<Rightarrow> map_transactions method tb pm ip wb zt mb vectors' transactions)"

definition create_transaction_vectors_on_timebase ::
  "Transaction list \<Rightarrow> datetime list \<Rightarrow> real list option \<Rightarrow> datetime list \<Rightarrow> string \<Rightarrow> int \<Rightarrow> real \<Rightarrow>
   real \<times> real \<Rightarrow> error + (real list \<times> real list)" where
  "create_transaction_vectors_on_timebase transactions unified_timebase interpolated_positions
       position_timestamps_set method window_bins z_threshold magnitude_band =
     (let deposit_vector = replicate (length unified_timebase) 0;
          withdrawal_vector = replicate (length unified_timebase) 0;
          pos_mask = pos_mask_of position_timestamps_set unified_timebase
      in map_transactions method unified_timebase pos_mask interpolated_positions window_bins
           z_threshold magnitude_band (deposit_vector, withdrawal_vector) transactions)"

subsection \<open>Gain Calculator (\<^verbatim>\<open>calculate_correct_gains\<close>)\<close>

text \<open>
  The result is the tuple (unified timebase, interpolated positions, deposit CDF,
  withdrawal CDF, gains).  \<open>alignment_method\<close> and \<open>tx_timestamp_source\<close> are the
  strings after \<^verbatim>\<open>.strip().lower()\<close>.  The mapper is called with its default
  window of 8 bins, z threshold 3.0 and magnitude band (0.3, 1.5).
\<close>

definition gains_of :: "real list \<Rightarrow> real list \<Rightarrow> real list \<Rightarrow> real \<Rightarrow> real \<Rightarrow> real \<Rightarrow> real list" where
  "gains_of interpolated_positions deposit_cdf withdrawal_cdf P_t0 CDF_D_t0 CDF_W_t0 =
     map (\<lambda>i. interpolated_positions ! i - P_t0 - (deposit_cdf ! i - CDF_D_t0)
               + (withdrawal_cdf ! i - CDF_W_t0))
         [0..<length interpolated_positions]"

definition calculate_correct_gains ::
  "interp1d \<Rightarrow> datetime list \<Rightarrow> real list \<Rightarrow> Transaction list \<Rightarrow> int \<Rightarrow> string \<Rightarrow> string \<Rightarrow> string \<Rightarrow>
   error + (datetime list \<times> real list \<times> real list \<times> real list \<times> real list)" where
  "calculate_correct_gains scipy position_timestamps position_values transactions
       reference_time_index interpolation_method alignment_method tx_timestamp_source =
     (let use_created = (tx_timestamp_source = ''created_at'');
          transaction_timestamps =
            map (\<lambda>tx. if use_created then created_at tx else timestamp tx) transactions;
          unified_timebase = create_unified_timebase position_timestamps transaction_timestamps
      in case interpolate_positions_on_timebase scipy position_timestamps position_values
                unified_timebase interpolation_method of
           Inl e \<Rightarrow> Inl e
         | Inr interpolated_positions \<Rightarrow>
            (let pos_ts_set = map normalize_timestamp position_timestamps;
                 txs_for_map = (if use_created
                                then map (\<lambda>tx. tx\<lparr>timestamp := created_at tx\<rparr>) transactions
                                else transactions)
             in case create_transaction_vectors_on_timebase txs_for_map unified_timebase
                       (Some interpolated_positions) pos_ts_set alignment_method 8 3
                       (3 / 10, 15 / 10) of
                  Inl e \<Rightarrow> Inl e
                | Inr vectors \<Rightarrow>
                   (let deposit_cdf = np_cumsum (fst vectors);
                        withdrawal_cdf = np_cumsum (snd vectors)
                    in if reference_time_index \<ge> int (length unified_timebase) then Inl ValueError
                       else
                         (case py_get interpolated_positions reference_time_index of
                            Inl e \<Rightarrow> Inl e
                          | Inr P_t0 \<Rightarrow>
                             (case py_get deposit_cdf reference_time_index of
                                Inl e \<Rightarrow> Inl e
                              | Inr CDF_D_t0 \<Rightarrow>
                                 (case py_get withdrawal_cdf reference_time_index of
                                    Inl e \<Rightarrow> Inl e
                                  | Inr CDF_W_t0 \<Rightarrow>
                                     Inr (unified_timebase, interpolated_positions, deposit_cdf,
                                          withdrawal_cdf,
                                          gains_of interpolated_positions deposit_cdf
                                            withdrawal_cdf P_t0 CDF_D_t0 CDF_W_t0)))))))"

subsection \<open>Wallet Decomposer (\<^verbatim>\<open>_calculate_per_wallet_wmax\<close>)\<close>

record WalletBreakdown =
  wb_wallet_address :: string
  wmax_usd :: real
  v_t1_usd :: real

text \<open>\<^verbatim>\<open>WalletBreakdown.__post_init__\<close>\<close>

definition WalletBreakdown_post_init :: "WalletBreakdown \<Rightarrow> error + WalletBreakdown" where
  "WalletBreakdown_post_init b =
     (if blank (wb_wallet_address b) then Inl ValueError
      else if wmax_usd b < 0 then Inl ValueError
      else if v_t1_usd b < 0 then Inl ValueError
      else Inr b)"

text \<open>
  A position series is a dict from instants to values, given by its items (the keys are
  distinct).  \<^verbatim>\<open>sorted(series.keys())\<close> followed by the lookup of every key is the
  list of items sorted by key; comparing a naive with an aware key raises TypeError.
\<close>

fun is_aware :: "datetime \<Rightarrow> bool" where
  "is_aware (Aware w off) = True"
| "is_aware (Naive w) = False"

definition sorted_items :: "(datetime \<times> real) list \<Rightarrow> error + (datetime \<times> real) list" where
  "sorted_items series =
     (if list_all (\<lambda>kv. is_aware (fst kv)) series \<or> list_all (\<lambda>kv. \<not> is_aware (fst kv)) series
      then Inr (sort_key (\<lambda>kv. utc_instant (fst kv)) series)
      else Inl TypeError)"

text \<open>
  The body of the \<^verbatim>\<open>try\<close> block up to the wallet's gain: the transactions of the
  wallet, the gain series with reference index 0 and linear interpolation, and its last
  value.
\<close>

definition wallet_gain ::
  "interp1d \<Rightarrow> string \<Rightarrow> string \<Rightarrow> Transaction list \<Rightarrow> string \<Rightarrow> datetime list \<Rightarrow> real list \<Rightarrow>
   error + real" where
  "wallet_gain scipy alignment_method tx_timestamp_source all_txs wallet_addr pos_ts pos_vals =
     (let wallet_txs = filter (\<lambda>tx. wallet_address tx = wallet_addr) all_txs
      in case calculate_correct_gains scipy pos_ts pos_vals wallet_txs 0 ''linear''
                alignment_method tx_timestamp_source of
           Inl e \<Rightarrow> Inl e
         | Inr r \<Rightarrow>
            (let gains = snd (snd (snd (snd r)))
             in Inr (if length gains > 0 then last gains else 0)))"

text \<open>
  The loop over the wallets.  Each listed wallet is returned together with the gain its
  cap was computed from.  A wallet with an empty series is skipped; an exception inside
  the \<^verbatim>\<open>try\<close> block (from the gain calculation or from the validation of the
  breakdown entry) skips the wallet too; an exception while sorting the keys is outside
  the \<^verbatim>\<open>try\<close> block and leaves the function.
\<close>

fun per_wallet_loop ::
  "interp1d \<Rightarrow> string \<Rightarrow> string \<Rightarrow> real \<Rightarrow> Transaction list \<Rightarrow> (string \<times> (datetime \<times> real) list) list \<Rightarrow>
   error + (real \<times> WalletBreakdown) list" where
  "per_wallet_loop scipy am src c all_txs [] = Inr []"
| "per_wallet_loop scipy am src c all_txs ((wallet_addr, series) # rest) =
     (if series = [] then per_wallet_loop scipy am src c all_txs rest
      else
        (case sorted_items series of
           Inl e \<Rightarrow> Inl e
         | Inr items \<Rightarrow>
            (let pos_ts = map fst items;
                 pos_vals = map snd items
             in case wallet_gain scipy am src all_txs wallet_addr pos_ts pos_vals of
                  Inl e \<Rightarrow> per_wallet_loop scipy am src c all_txs rest
                | Inr g_wallet \<Rightarrow>
                   (let wmax_wallet = max 0 (c * g_wallet);
                        v_t1 = (if length pos_vals > 0 then last pos_vals else 0)
                    in case WalletBreakdown_post_init
                              \<lparr>wb_wallet_address = wallet_addr, wmax_usd = wmax_wallet,
                               v_t1_usd = v_t1\<rparr> of
                         Inl e \<Rightarrow> per_wallet_loop scipy am src c all_txs rest
                       | Inr b \<Rightarrow>
                          (case per_wallet_loop scipy am src c all_txs rest of
                             Inl e \<Rightarrow> Inl e
                           | Inr bs \<Rightarrow> Inr ((g_wallet, b) # bs))))))"

definition calculate_per_wallet_wmax ::
  "interp1d \<Rightarrow> string \<Rightarrow> string \<Rightarrow> real \<Rightarrow> Transaction list \<Rightarrow> (string \<times> (datetime \<times> real) list) list \<Rightarrow>
   error + WalletBreakdown list" where
  "calculate_per_wallet_wmax scipy alignment_method tx_timestamp_source safety_factor_c all_txs
       wallet_series_dict =
     (case per_wallet_loop scipy alignment_method tx_timestamp_source safety_factor_c all_txs
             wallet_series_dict of
        Inl e \<Rightarrow> Inl e
      | Inr xs \<Rightarrow> Inr (map snd xs))"

text \<open>The per-wallet gains of the listed wallets, in the order of the breakdown.\<close>

definition listed_wallet_gains ::
  "interp1d \<Rightarrow> string \<Rightarrow> string \<Rightarrow> real \<Rightarrow> Transaction list \<Rightarrow> (string \<times> (datetime \<times> real) list) list \<Rightarrow>
   error + real list" where
  "listed_wallet_gains scipy alignment_method tx_timestamp_source safety_factor_c all_txs
       wallet_series_dict =
     (case per_wallet_loop scipy alignment_method tx_timestamp_source safety_factor_c all_txs
             wallet_series_dict of
        Inl e \<Rightarrow> Inl e
      | Inr xs \<Rightarrow> Inr (map fst xs))"

subsection \<open>Residual Decision Gate (\<^verbatim>\<open>evaluate_once\<close>, after windowing)\<close>

record DecisionGate =
  enabled :: bool
  apply_in_fallback :: bool
  gate_method :: string
  polynomial_order :: int
  k_sigma :: real
  min_points :: int
  threshold_mode :: string
  central_confidence :: real
  sigma_epsilon :: real
  exclude_last_for_sigma :: bool

text \<open>
  \<^verbatim>\<open>np.polyfit\<close> followed by the evaluation of the fitted polynomial at the sample
  abscissae is library code outside the repository: a parameter giving the fitted values,
  or an exception.
\<close>

type_synonym polyfit = "real list \<Rightarrow> real list \<Rightarrow> int \<Rightarrow> error + real list"

text \<open>
  \<^verbatim>\<open>np.quantile\<close> with the default linear method; a quantile outside \<open>[0, 1]\<close>
  raises ValueError.
\<close>

definition np_quantile :: "real list \<Rightarrow> real \<Rightarrow> error + real" where
  "np_quantile xs q =
     (if q < 0 \<or> q > 1 then Inl ValueError
      else
        (let s = sort xs; n = length xs;
             h = real (n - 1) * q;
             lo = nat \<lfloor>h\<rfloor>;
             hi = min (lo + 1) (n - 1)
         in Inr (s ! lo + (h - real lo) * (s ! hi - s ! lo))))"

text \<open>The baseline decision: WITHDRAW\_OK (1) iff the total cap over the wallets is positive.\<close>

definition baseline_decision :: "WalletBreakdown list \<Rightarrow> int" where
  "baseline_decision wmax = (let total_wmax = sum_list (map wmax_usd wmax)
                             in if total_wmax > 0 then 1 else 0)"

text \<open>The thresholding of the last residual, the same code in both paths.\<close>

definition residual_trigger :: "DecisionGate \<Rightarrow> real \<Rightarrow> real list \<Rightarrow> real \<Rightarrow> int" where
  "residual_trigger dg r_now res_est sigma =
     (let k = k_sigma dg;
          stddev_trigger = (if sigma > 0 \<and> r_now > k * sigma then 1 else 0)
      in if threshold_mode dg = ''percentile'' then
           (let c = central_confidence dg;
                p_low = max 0 ((1 - c) / 2);
                p_high = min 1 (1 - p_low)
            in if length res_est > 1 then
                 (case np_quantile res_est p_low of
                    Inl e \<Rightarrow> stddev_trigger
                  | Inr thr_low \<Rightarrow>
                     (case np_quantile res_est p_high of
                        Inl e \<Rightarrow> stddev_trigger
                      | Inr thr_high \<Rightarrow> if r_now > thr_high then 1 else 0))
               else (if r_now > 0 then 1 else 0))
         else stddev_trigger)"

text \<open>Hours since the first sample of the window.\<close>

definition hours_since_first :: "datetime list \<Rightarrow> error + real list" where
  "hours_since_first x_time =
     (case py_get x_time 0 of
        Inl e \<Rightarrow> Inl e
      | Inr t0_base \<Rightarrow>
         (case those (map (\<lambda>ts. dt_sub_seconds ts t0_base) x_time) of
            None \<Rightarrow> Inl TypeError
          | Some secs \<Rightarrow> Inr (map (\<lambda>s. s / 3600) secs)))"

text \<open>
  The residuals, the spread estimate and the threshold test after the baseline has been
  fitted.  The result is the decision with \<^verbatim>\<open>gate_applied\<close>; \<open>degenerate\<close> is the
  decision taken when the spread is below \<^verbatim>\<open>sigma_epsilon\<close> under stddev
  thresholding.
\<close>

definition gate_after_fit ::
  "DecisionGate \<Rightarrow> int \<times> bool option \<Rightarrow> real list \<Rightarrow> real list \<Rightarrow> error + (int \<times> bool option)" where
  "gate_after_fit dg degenerate cp_vals fitted =
     (let residuals = map (\<lambda>(c, f). c - f) (zip cp_vals fitted);
          res_est = (if exclude_last_for_sigma dg \<and> length residuals > 1
                     then butlast residuals else residuals);
          sigma = np_std res_est
      in if sigma < sigma_epsilon dg \<and> threshold_mode dg = ''stddev'' then Inr degenerate
         else
           (case py_get residuals (- 1) of
              Inl e \<Rightarrow> Inl e
            | Inr r_now \<Rightarrow> Inr (residual_trigger dg r_now res_est sigma, Some True)))"

text \<open>
  The keyword-reference path, from the test "Ensure we still have enough samples after
  filtering" on: \<open>x_time\<close> and \<open>cp_vals\<close> are the basis series after windowing.
  Too few samples and a degenerate spread give HOLD with \<^verbatim>\<open>gate_applied = False\<close>;
  so does every exception raised inside the gate.
\<close>

definition keyword_gate ::
  "polyfit \<Rightarrow> DecisionGate \<Rightarrow> datetime list \<Rightarrow> real list \<Rightarrow> error + (int \<times> bool option)" where
  "keyword_gate np_polyfit dg x_time cp_vals =
     (if int (length cp_vals) < max (min_points dg) (polynomial_order dg + 1)
        then Inr (0, Some False)
      else
        (case (if gate_method dg = ''median''
               then Inr (replicate (length cp_vals)
                           (if length cp_vals > 0 then np_median cp_vals else 0))
               else (case hours_since_first x_time of
                       Inl e \<Rightarrow> Inl e
                     | Inr x_hours \<Rightarrow> np_polyfit x_hours cp_vals (polynomial_order dg))) of
           Inl e \<Rightarrow> Inl e
         | Inr fitted \<Rightarrow> gate_after_fit dg (0, Some False) cp_vals fitted))"

definition keyword_path_decision ::
  "polyfit \<Rightarrow> DecisionGate \<Rightarrow> WalletBreakdown list \<Rightarrow> datetime list \<Rightarrow> real list \<Rightarrow> int \<times> bool option" where
  "keyword_path_decision np_polyfit dg wmax x_time cp_vals =
     (let base_decision = baseline_decision wmax
      in if enabled dg then
           (case keyword_gate np_polyfit dg x_time cp_vals of
              Inl e \<Rightarrow> (0, Some False)
            | Inr r \<Rightarrow> r)
         else (base_decision, None))"

text \<open>
  The data\_range fallback path, from "Validate minimum points" on.  Too few samples, a
  degenerate spread and every exception inside the gate keep the baseline decision.
\<close>

definition fallback_gate ::
  "polyfit \<Rightarrow> DecisionGate \<Rightarrow> WalletBreakdown list \<Rightarrow> datetime list \<Rightarrow> real list \<Rightarrow>
   error + (int \<times> bool option)" where
  "fallback_gate np_polyfit dg wmax x_time_use cp_vals_use =
     (if int (length cp_vals_use) < max (min_points dg) (polynomial_order dg + 1)
        then Inr (baseline_decision wmax, None)
      else
        (case hours_since_first x_time_use of
           Inl e \<Rightarrow> Inl e
         | Inr x_hours_fb \<Rightarrow>
            (case np_polyfit x_hours_fb cp_vals_use (polynomial_order dg) of
               Inl e \<Rightarrow> Inl e
             | Inr fitted_fb \<Rightarrow>
                 gate_after_fit dg (baseline_decision wmax, None) cp_vals_use fitted_fb)))"

definition fallback_path_decision ::
  "polyfit \<Rightarrow> DecisionGate \<Rightarrow> WalletBreakdown list \<Rightarrow> datetime list \<Rightarrow> real list \<Rightarrow> int \<times> bool option" where
  "fallback_path_decision np_polyfit dg wmax x_time_use cp_vals_use =
     (if enabled dg \<and> apply_in_fallback dg then
        (case fallback_gate np_polyfit dg wmax x_time_use cp_vals_use of
           Inl e \<Rightarrow> (baseline_decision wmax, None)
         | Inr r \<Rightarrow> r)
      else (baseline_decision wmax, None))"

subsection \<open>Price Mismatch Hysteresis (\<^verbatim>\<open>evaluate_once\<close>, phase C)\<close>





subsection \<open>Auxiliary predicates for the proofs\<close>

text \<open>Both vectors have the length of the timebase; both vectors are non-negative.\<close>

definition vectors_ok :: "nat \<Rightarrow> real list \<times> real list \<Rightarrow> bool" where
  "vectors_ok n v = (length (fst v) = n \<and> length (snd v) = n)"

definition vectors_nonneg :: "real list \<times> real list \<Rightarrow> bool" where
  "vectors_nonneg v = (list_all (\<lambda>x. 0 \<le> x) (fst v) \<and> list_all (\<lambda>x. 0 \<le> x) (snd v))"

section \<open>Properties\<close>

lemmas gain_pipeline_defs =
  calculate_correct_gains_def create_unified_timebase_def
  interpolate_positions_on_timebase_def np_interp_def np_interp_point_def interp_index_def
  timestamp_of_def create_transaction_vectors_on_timebase_def pos_mask_of_def
  map_transaction_def choose_index_for_tx_def py_set_def py_get_def np_cumsum_def gains_of_def
  true_indices_def Let_def

lemmas wallet_defs = calculate_per_wallet_wmax_def listed_wallet_gains_def wallet_gain_def
  sorted_items_def WalletBreakdown_post_init_def blank_def is_space_def

subsection \<open>The index chosen by an alignment policy is a timebase index\<close>

lemma snap_next_loop_ge: "idx \<le> snap_next_loop m n idx"
proof (induction m n idx rule: snap_next_loop.induct)
  case (1 pos_mask n i)
  show ?case
  proof (cases "i < n \<and> \<not> pos_mask ! nat i")
    case True
    with 1 have "i + 1 \<le> snap_next_loop pos_mask n (i + 1)" by simp
    with True show ?thesis by (subst snap_next_loop.simps) simp
  next
    case False
    then show ?thesis by (subst snap_next_loop.simps) simp
  qed
qed

lemma snap_prev_loop_le: "snap_prev_loop m idx \<le> idx"
proof (induction m idx rule: snap_prev_loop.induct)
  case (1 pos_mask i)
  show ?case
  proof (cases "i \<ge> 0 \<and> \<not> pos_mask ! nat i")
    case True
    with 1 have "snap_prev_loop pos_mask (i - 1) \<le> i - 1" by simp
    with True show ?thesis by (subst snap_prev_loop.simps) simp
  next
    case False
    then show ?thesis by (subst snap_prev_loop.simps) simp
  qed
qed

lemma true_indices_range:
  assumes "k \<in> set (true_indices m)"
  shows "0 \<le> k \<and> k < int (length m)"
  using assms by (auto simp: true_indices_def)

lemma true_indices_nonempty:
  assumes "list_ex (\<lambda>b. b) m"
  shows "true_indices m \<noteq> []"
proof -
  from assms obtain k where "k < length m" "m ! k"
    by (auto simp: list_ex_iff in_set_conv_nth)
  then have "int k \<in> set (true_indices m)"
    by (auto simp: true_indices_def)
  then show ?thesis by auto
qed

lemma foldl_max_mem: "foldl max (a::int) xs \<in> set (a # xs)"
  by (induction xs arbitrary: a) (auto simp: max_def)

lemma int_max_mem: "xs \<noteq> [] \<Longrightarrow> int_max xs \<in> set xs"
  using foldl_max_mem [of "hd xs" "tl xs"] by (cases xs) (auto simp: int_max_def)

lemma argmin_from_less:
  "best < k \<Longrightarrow> argmin_from best bv k xs < k + length xs"
proof (induction xs arbitrary: best bv k)
  case Nil
  then show ?case by simp
next
  case (Cons x xs)
  have a: "argmin_from k x (Suc k) xs < Suc k + length xs"
    using Cons.IH [of k "Suc k" x] by simp
  have b: "argmin_from best bv (Suc k) xs < Suc k + length xs"
    using Cons.IH [of best "Suc k" bv] Cons.prems by simp
  from a b show ?case by simp
qed

lemma np_argmin_less: "xs \<noteq> [] \<Longrightarrow> np_argmin xs < length xs"
  using argmin_from_less [of 0 1 "hd xs" "tl xs"] by (cases xs) (auto simp: np_argmin_def)

lemma snap_nearest_range:
  assumes "snap_nearest tb m idx tx = Some r"
  shows "0 \<le> r \<and> r < int (length m)"
proof -
  from assms have any: "list_ex (\<lambda>b. b) m"
    by (auto simp: snap_nearest_def split: if_splits)
  then have ne: "true_indices m \<noteq> []" by (rule true_indices_nonempty)
  let ?pi = "true_indices m"
  let ?fb = "?pi ! np_argmin (map (\<lambda>k. \<bar>real_of_int (k - idx)\<bar>) ?pi)"
  have "np_argmin (map (\<lambda>k. \<bar>real_of_int (k - idx)\<bar>) ?pi) < length ?pi"
    using np_argmin_less [of "map (\<lambda>k. \<bar>real_of_int (k - idx)\<bar>) ?pi"] ne by simp
  then have fb: "?fb \<in> set ?pi" by simp
  have "r \<in> set ?pi"
  proof (cases "those (map (\<lambda>k. dt_sub_seconds (tb ! nat k) (timestamp tx)) ?pi)")
    case None
    with assms any fb show ?thesis by (simp add: snap_nearest_def Let_def)
  next
    case (Some ds)
    let ?cands = "map fst (filter (\<lambda>(k, d). np_isclose d (np_min (map abs ds)))
                                   (zip ?pi (map abs ds)))"
    have sub: "set ?cands \<subseteq> set ?pi" by (auto dest: set_zip_leftD)
    show ?thesis
    proof (cases "?cands = []")
      case True
      with assms any fb Some show ?thesis by (simp add: snap_nearest_def Let_def)
    next
      case False
      then have "int_max ?cands \<in> set ?cands" by (rule int_max_mem)
      with sub have "int_max ?cands \<in> set ?pi" by blast
      with assms any Some False show ?thesis by (simp add: snap_nearest_def Let_def)
    qed
  qed
  then show ?thesis by (rule true_indices_range)
qed

lemma scan_step_lower:
  assumes "case best of None \<Rightarrow> True | Some t \<Rightarrow> start \<le> fst t"
  shows "case scan_step l z sg mag a b zt ig start idx best j of
           None \<Rightarrow> True | Some t \<Rightarrow> start \<le> fst t"
  using assms by (auto simp: scan_step_def Let_def split: option.splits)

lemma scan_fold_lower:
  assumes "case best of None \<Rightarrow> True | Some t \<Rightarrow> start \<le> fst t"
  shows "case foldl (scan_step l z sg mag a b zt ig start idx) best js of
           None \<Rightarrow> True | Some t \<Rightarrow> start \<le> fst t"
  using assms
proof (induction js arbitrary: best)
  case Nil
  then show ?case by simp
next
  case (Cons j js)
  show ?case
    using Cons.IH [OF scan_step_lower [OF Cons.prems]] by simp
qed

lemma scan_lower:
  assumes "scan l z sg mag a b zt ig start idx = Some r"
  shows "start \<le> r"
  using assms scan_fold_lower [where best = None and start = start and l = l and z = z and sg = sg
      and mag = mag and a = a and b = b and zt = zt and ig = ig and idx = idx
      and js = "[0..<length l]"]
  by (auto simp: scan_def split: option.splits)

lemma forward_fallback_shape:
  assumes "forward_fallback dP n wb sg idx = Some r"
  shows "\<exists>j. r = min (idx + int j + 1) (n - 1)"
  using assms unfolding forward_fallback_def Let_def
  by (simp split: if_splits option.splits) blast

lemma detect_spike_shape:
  assumes "detect_spike ip n wb zt mb idx tx = Some r"
  shows "(\<exists>b. max 1 (idx - wb) \<le> b \<and> r = min (b + 1) (n - 1))
       \<or> (\<exists>j. r = min (idx + int j + 1) (n - 1))"
proof -
  define start where "start = max 1 (idx - wb)"
  define dP where "dP = np_diff ip"
  define local_dP where "local_dP = py_slice dP start (min (n - 1) (idx + wb) + 1)"
  define med where "med = np_median local_dP"
  define mad where "mad = np_median (map (\<lambda>v. \<bar>v - med\<bar>) local_dP)"
  define scale where "scale = (if mad > 0 then (14826 / 10000) * mad
                         else if np_std local_dP > 0 then np_std local_dP else 1)"
  define z where "z = map (\<lambda>v. (v - med) / scale) local_dP"
  define sg :: real where "sg = (if transaction_type tx = ''withdrawal'' then - 1 else 1)"
  define sF where "sF = scan local_dP z sg \<bar>amount tx\<bar> (fst mb) (snd mb) zt False start idx"
  define sT where "sT = scan local_dP z sg \<bar>amount tx\<bar> (fst mb) (snd mb) zt True start idx"
  have eq: "detect_spike ip n wb zt mb idx tx =
      (if local_dP = [] then None
       else (case sF of Some best_i \<Rightarrow> Some (min (best_i + 1) (n - 1))
             | None \<Rightarrow> (case sT of Some best_i \<Rightarrow> Some (min (best_i + 1) (n - 1))
                        | None \<Rightarrow> forward_fallback dP n wb sg idx)))"
    unfolding detect_spike_def Let_def start_def dP_def local_dP_def med_def mad_def scale_def
      z_def sg_def sF_def sT_def ..
  show ?thesis
  proof (cases sF)
    case (Some b)
    then have "start \<le> b" unfolding sF_def by (rule scan_lower)
    moreover from assms eq Some have "r = min (b + 1) (n - 1)" by (simp split: if_splits)
    ultimately show ?thesis unfolding start_def by blast
  next
    case None
    show ?thesis
    proof (cases sT)
      case (Some b)
      then have "start \<le> b" unfolding sT_def by (rule scan_lower)
      moreover from assms eq None Some have "r = min (b + 1) (n - 1)" by (simp split: if_splits)
      ultimately show ?thesis unfolding start_def by blast
    next
      case n2: None
      with assms eq None have "forward_fallback dP n wb sg idx = Some r"
        by (simp split: if_splits)
      then show ?thesis using forward_fallback_shape by blast
    qed
  qed
qed

lemma detect_spike_range:
  assumes "detect_spike ip n wb zt mb idx tx = Some r" and "0 < idx" and "idx < n"
  shows "0 \<le> r \<and> r < n"
  using detect_spike_shape [OF assms(1)] assms(2,3) by auto

lemma choose_right_open:
  assumes "0 \<le> idx" and "idx < int (length tb)"
  shows "0 \<le> choose_index_for_tx ''right_open'' tb pos_mask ip wb zt mb idx tx
       \<and> choose_index_for_tx ''right_open'' tb pos_mask ip wb zt mb idx tx < int (length tb)"
proof -
  have "choose_index_for_tx ''right_open'' tb pos_mask ip wb zt mb idx tx
          = min (idx + 1) (int (length tb) - 1)"
    by (simp add: choose_index_for_tx_def)
  with assms show ?thesis by arith
qed

lemma choose_snap_next:
  assumes "0 \<le> idx" and "idx < int (length tb)" and "length m = length tb"
  shows "0 \<le> choose_index_for_tx ''snap_to_next_pos'' tb (Some m) ip wb zt mb idx tx
       \<and> choose_index_for_tx ''snap_to_next_pos'' tb (Some m) ip wb zt mb idx tx < int (length tb)"
proof -
  let ?n = "int (length tb)"
  let ?i = "snap_next_loop m ?n idx"
  have eq: "choose_index_for_tx ''snap_to_next_pos'' tb (Some m) ip wb zt mb idx tx
          = (if ?i \<ge> ?n then (if list_ex (\<lambda>b. b) m then last (true_indices m) else idx) else ?i)"
    by (simp add: choose_index_for_tx_def Let_def)
  have ge: "idx \<le> ?i" by (rule snap_next_loop_ge)
  have lst: "list_ex (\<lambda>b. b) m \<Longrightarrow> 0 \<le> last (true_indices m) \<and> last (true_indices m) < ?n"
    using true_indices_range [of "last (true_indices m)" m] true_indices_nonempty [of m] assms(3)
    by simp
  show ?thesis
  proof (cases "?i \<ge> ?n")
    case True
    show ?thesis
    proof (cases "list_ex (\<lambda>b. b) m")
      case a: True
      with True eq lst show ?thesis by simp
    next
      case a: False
      with True eq assms show ?thesis by simp
    qed
  next
    case False
    with eq ge assms show ?thesis by simp
  qed
qed

lemma choose_snap_prev:
  assumes "0 \<le> idx" and "idx < int (length tb)" and "length m = length tb"
  shows "0 \<le> choose_index_for_tx ''snap_to_prev_pos'' tb (Some m) ip wb zt mb idx tx
       \<and> choose_index_for_tx ''snap_to_prev_pos'' tb (Some m) ip wb zt mb idx tx < int (length tb)"
proof -
  let ?n = "int (length tb)"
  let ?i = "snap_prev_loop m idx"
  have eq: "choose_index_for_tx ''snap_to_prev_pos'' tb (Some m) ip wb zt mb idx tx
          = (if ?i < 0 then (if list_ex (\<lambda>b. b) m then hd (true_indices m) else idx) else ?i)"
    by (simp add: choose_index_for_tx_def Let_def)
  have le: "?i \<le> idx" by (rule snap_prev_loop_le)
  have fst: "list_ex (\<lambda>b. b) m \<Longrightarrow> 0 \<le> hd (true_indices m) \<and> hd (true_indices m) < ?n"
    using true_indices_range [of "hd (true_indices m)" m] true_indices_nonempty [of m] assms(3)
    by simp
  show ?thesis
  proof (cases "?i < 0")
    case True
    show ?thesis
    proof (cases "list_ex (\<lambda>b. b) m")
      case a: True
      with True eq fst show ?thesis by simp
    next
      case a: False
      with True eq assms show ?thesis by simp
    qed
  next
    case False
    with eq le assms show ?thesis by simp
  qed
qed

lemma choose_other:
  assumes "0 \<le> idx" and "idx < int (length tb)"
    and "\<forall>m. pos_mask = Some m \<longrightarrow> length m = length tb"
    and "method \<noteq> ''right_open''"
    and "\<not> (method = ''snap_to_next_pos'' \<and> pos_mask \<noteq> None)"
    and "\<not> (method = ''snap_to_prev_pos'' \<and> pos_mask \<noteq> None)"
  shows "0 \<le> choose_index_for_tx method tb pos_mask ip wb zt mb idx tx
       \<and> choose_index_for_tx method tb pos_mask ip wb zt mb idx tx < int (length tb)"
proof -
  let ?n = "int (length tb)"
  define near where "near =
    (if method = ''snap_to_nearest_pos'' \<and> pos_mask \<noteq> None
     then snap_nearest tb (the pos_mask) idx tx else None)"
  define det where "det =
    (if (method = ''detect_spike'' \<and> ip \<noteq> None) \<and> 0 < idx \<and> idx < ?n
     then detect_spike (the ip) ?n wb zt mb idx tx else None)"
  have eq: "choose_index_for_tx method tb pos_mask ip wb zt mb idx tx
          = (case near of Some r \<Rightarrow> r | None \<Rightarrow> (case det of Some r \<Rightarrow> r | None \<Rightarrow> idx))"
  proof -
    have a: "(method = ''snap_to_next_pos'' \<and> pos_mask \<noteq> None) = False"
      using assms(5) by blast
    have b: "(method = ''snap_to_prev_pos'' \<and> pos_mask \<noteq> None) = False"
      using assms(6) by blast
    have c: "(method = ''right_open'') = False" using assms(4) by blast
    show ?thesis
      unfolding choose_index_for_tx_def Let_def near_def det_def a b c if_False ..
  qed
  have near_r: "0 \<le> r \<and> r < ?n" if "near = Some r" for r
  proof -
    from that obtain m where m: "pos_mask = Some m" and sn: "snap_nearest tb m idx tx = Some r"
      unfolding near_def by (cases pos_mask) (simp_all split: if_splits)
    from assms(3) m snap_nearest_range [OF sn] show ?thesis by simp
  qed
  have det_r: "0 \<le> r \<and> r < ?n" if "det = Some r" for r
  proof -
    from that have ds: "detect_spike (the ip) ?n wb zt mb idx tx = Some r" and pos: "0 < idx"
      unfolding det_def by (simp_all split: if_splits)
    from detect_spike_range [OF ds pos assms(2)] show ?thesis .
  qed
  show ?thesis
  proof (cases near)
    case (Some r)
    with eq near_r [OF Some] show ?thesis by simp
  next
    case None
    show ?thesis
    proof (cases det)
      case (Some r)
      with eq None det_r [OF Some] show ?thesis by simp
    next
      case n2: None
      with eq None assms(1,2) show ?thesis by simp
    qed
  qed
qed

lemma choose_index_for_tx_range:
  assumes "0 \<le> idx" and "idx < int (length tb)"
    and "\<forall>m. pos_mask = Some m \<longrightarrow> length m = length tb"
  shows "0 \<le> choose_index_for_tx method tb pos_mask ip wb zt mb idx tx
       \<and> choose_index_for_tx method tb pos_mask ip wb zt mb idx tx < int (length tb)"
proof -
  consider (ro) "method = ''right_open''"
    | (nx) "method = ''snap_to_next_pos''" "pos_mask \<noteq> None"
    | (pv) "method = ''snap_to_prev_pos''" "pos_mask \<noteq> None"
    | (other) "method \<noteq> ''right_open''"
        "\<not> (method = ''snap_to_next_pos'' \<and> pos_mask \<noteq> None)"
        "\<not> (method = ''snap_to_prev_pos'' \<and> pos_mask \<noteq> None)"
    by blast
  then show ?thesis
  proof cases
    case ro
    with choose_right_open [OF assms(1,2)] show ?thesis by simp
  next
    case nx
    then obtain m where m: "pos_mask = Some m" by auto
    from assms(3) m have "length m = length tb" by simp
    from choose_snap_next [OF assms(1,2) this] nx(1) m show ?thesis by simp
  next
    case pv
    then obtain m where m: "pos_mask = Some m" by auto
    from assms(3) m have "length m = length tb" by simp
    from choose_snap_prev [OF assms(1,2) this] pv(1) m show ?thesis by simp
  next
    case other
    from choose_other [OF assms other] show ?thesis .
  qed
qed

subsection \<open>The Transaction Mapper returns, and keeps the vectors non-negative\<close>

lemma py_set_in_range:
  assumes "0 \<le> i" and "i < int (length xs)"
  shows "py_set xs i v = Inr (xs[nat i := v])"
  using assms by (simp add: py_set_def Let_def)

lemma py_get_in_range:
  assumes "0 \<le> i" and "i < int (length xs)"
  shows "py_get xs i = Inr (xs ! nat i)"
  using assms by (simp add: py_get_def Let_def)

lemma map_transaction_cases:
  assumes len: "length d = length tb" "length w = length tb"
    and pm: "\<forall>m. pos_mask = Some m \<longrightarrow> length m = length tb"
  shows "map_transaction am tb pos_mask ip wb zt mb (d, w) tx = Inr (d, w)
       \<or> (\<exists>i < length tb. transaction_type tx = ''deposit''
             \<and> map_transaction am tb pos_mask ip wb zt mb (d, w) tx
                 = Inr (d[i := amount tx], w))
       \<or> (\<exists>i < length tb. transaction_type tx = ''withdrawal''
             \<and> map_transaction am tb pos_mask ip wb zt mb (d, w) tx
                 = Inr (d, w[i := \<bar>amount tx\<bar>]))"
proof (cases "filter (\<lambda>k. dt_eq (tb ! k) (timestamp tx)) [0..<length tb]")
  case Nil
  then show ?thesis by (simp add: map_transaction_def)
next
  case (Cons base_idx rest)
  then have "base_idx \<in> set (filter (\<lambda>k. dt_eq (tb ! k) (timestamp tx)) [0..<length tb])"
    by simp
  then have b: "base_idx < length tb" by simp
  define idx where "idx = choose_index_for_tx am tb pos_mask ip wb zt mb (int base_idx) tx"
  have r: "0 \<le> idx \<and> idx < int (length tb)"
    unfolding idx_def using b pm by (intro choose_index_for_tx_range) simp_all
  then have n: "nat idx < length tb" by arith
  have sd: "py_set d idx (amount tx) = Inr (d[nat idx := amount tx])"
    using r len by (intro py_set_in_range) simp_all
  have sw: "py_set w idx \<bar>amount tx\<bar> = Inr (w[nat idx := \<bar>amount tx\<bar>])"
    using r len by (intro py_set_in_range) simp_all
  have eq: "map_transaction am tb pos_mask ip wb zt mb (d, w) tx =
      (if transaction_type tx = ''deposit'' then
         (case py_set d idx (amount tx) of Inl e \<Rightarrow> Inl e | Inr d' \<Rightarrow> Inr (d', w))
       else if transaction_type tx = ''withdrawal'' then
         (case py_set w idx \<bar>amount tx\<bar> of Inl e \<Rightarrow> Inl e | Inr w' \<Rightarrow> Inr (d, w'))
       else Inr (d, w))"
    unfolding map_transaction_def Let_def idx_def using Cons by (simp split: sum.splits)
  show ?thesis
  proof (cases "transaction_type tx = ''deposit''")
    case True
    with eq sd n show ?thesis by auto
  next
    case False
    show ?thesis
    proof (cases "transaction_type tx = ''withdrawal''")
      case True
      with eq sw n False show ?thesis by auto
    next
      case f2: False
      with eq False show ?thesis by simp
    qed
  qed
qed

lemma list_all_update:
  assumes "list_all P xs" and "P v"
  shows "list_all P (xs[i := v])"
  using assms by (auto simp: list_all_iff dest!: set_update_subset_insert [THEN subsetD])

lemma map_transaction_returns:
  assumes "vectors_ok (length tb) v"
    and "\<forall>m. pos_mask = Some m \<longrightarrow> length m = length tb"
  shows "\<exists>v'. map_transaction am tb pos_mask ip wb zt mb v tx = Inr v'
              \<and> vectors_ok (length tb) v'
              \<and> (vectors_nonneg v \<longrightarrow> (transaction_type tx = ''deposit'' \<longrightarrow> 0 < amount tx)
                   \<longrightarrow> vectors_nonneg v')"
proof -
  obtain d w where v: "v = (d, w)" by (cases v)
  with assms(1) have len: "length d = length tb" "length w = length tb"
    by (simp_all add: vectors_ok_def)
  from map_transaction_cases [OF len assms(2), where am = am and ip = ip and wb = wb
      and zt = zt and mb = mb and tx = tx]
  show ?thesis unfolding v
    by (auto simp: vectors_ok_def vectors_nonneg_def len intro!: list_all_update)
qed

lemma map_transactions_returns:
  assumes "vectors_ok (length tb) v"
    and "\<forall>m. pos_mask = Some m \<longrightarrow> length m = length tb"
  shows "\<exists>v'. map_transactions am tb pos_mask ip wb zt mb v txs = Inr v'
              \<and> vectors_ok (length tb) v'
              \<and> (vectors_nonneg v
                   \<longrightarrow> list_all (\<lambda>tx. transaction_type tx = ''deposit'' \<longrightarrow> 0 < amount tx) txs
                   \<longrightarrow> vectors_nonneg v')"
  using assms(1)
proof (induction txs arbitrary: v)
  case Nil
  then show ?case by simp
next
  case (Cons tx txs)
  from map_transaction_returns [OF Cons.prems assms(2), where am = am and ip = ip
      and wb = wb and zt = zt and mb = mb and tx = tx]
  obtain v1 where v1: "map_transaction am tb pos_mask ip wb zt mb v tx = Inr v1"
    and ok1: "vectors_ok (length tb) v1"
    and nn1: "vectors_nonneg v \<longrightarrow> (transaction_type tx = ''deposit'' \<longrightarrow> 0 < amount tx)
                \<longrightarrow> vectors_nonneg v1"
    by blast
  from Cons.IH [OF ok1] obtain v' where
    v': "map_transactions am tb pos_mask ip wb zt mb v1 txs = Inr v'"
    and ok': "vectors_ok (length tb) v'"
    and nn': "vectors_nonneg v1
                \<longrightarrow> list_all (\<lambda>tx. transaction_type tx = ''deposit'' \<longrightarrow> 0 < amount tx) txs
                \<longrightarrow> vectors_nonneg v'"
    by blast
  from v1 v' ok' nn1 nn' show ?case by simp
qed

lemma pos_mask_of_length:
  "\<forall>m. pos_mask_of pset tb = Some m \<longrightarrow> length m = length tb"
  by (auto simp: pos_mask_of_def split: if_splits)

lemma create_transaction_vectors_returns:
  "\<exists>d w. create_transaction_vectors_on_timebase txs tb ip pset am wb zt mb = Inr (d, w)
         \<and> length d = length tb \<and> length w = length tb
         \<and> (list_all (\<lambda>tx. transaction_type tx = ''deposit'' \<longrightarrow> 0 < amount tx) txs
              \<longrightarrow> list_all (\<lambda>x. 0 \<le> x) d \<and> list_all (\<lambda>x. 0 \<le> x) w)"
proof -
  let ?v0 = "(replicate (length tb) (0::real), replicate (length tb) (0::real))"
  have ok0: "vectors_ok (length tb) ?v0" by (simp add: vectors_ok_def)
  have nn0: "vectors_nonneg ?v0" by (simp add: vectors_nonneg_def list_all_iff)
  have "\<exists>v'. map_transactions am tb (pos_mask_of pset tb) ip wb zt mb ?v0 txs = Inr v'
              \<and> vectors_ok (length tb) v'
              \<and> (vectors_nonneg ?v0
                   \<longrightarrow> list_all (\<lambda>tx. transaction_type tx = ''deposit'' \<longrightarrow> 0 < amount tx) txs
                   \<longrightarrow> vectors_nonneg v')"
    by (rule map_transactions_returns [OF ok0 pos_mask_of_length])
  then obtain v' where
    "map_transactions am tb (pos_mask_of pset tb) ip wb zt mb ?v0 txs = Inr v'"
    and "vectors_ok (length tb) v'"
    and "vectors_nonneg ?v0
          \<longrightarrow> list_all (\<lambda>tx. transaction_type tx = ''deposit'' \<longrightarrow> 0 < amount tx) txs
          \<longrightarrow> vectors_nonneg v'"
    by blast
  with nn0 show ?thesis
    by (cases v') (auto simp: create_transaction_vectors_on_timebase_def Let_def vectors_ok_def
        vectors_nonneg_def)
qed

lemma cumsum_from_length: "length (cumsum_from acc xs) = length xs"
  by (induction xs arbitrary: acc) simp_all

lemma cumsum_from_lower:
  assumes "list_all (\<lambda>x. 0 \<le> x) xs" and "y \<in> set (cumsum_from acc xs)"
  shows "acc \<le> y"
  using assms
proof (induction xs arbitrary: acc)
  case Nil
  then show ?case by simp
next
  case (Cons x xs)
  from Cons.prems have x: "0 \<le> x" and rest: "list_all (\<lambda>x. 0 \<le> x) xs" by simp_all
  from Cons.prems(2) consider "y = acc + x" | "y \<in> set (cumsum_from (acc + x) xs)" by auto
  then show ?case
  proof cases
    case 1
    with x show ?thesis by simp
  next
    case 2
    from Cons.IH [OF rest 2] x show ?thesis by simp
  qed
qed

lemma cumsum_from_sorted:
  assumes "list_all (\<lambda>x. 0 \<le> x) xs"
  shows "sorted (cumsum_from acc xs)"
  using assms
proof (induction xs arbitrary: acc)
  case Nil
  then show ?case by simp
next
  case (Cons x xs)
  from Cons.prems have rest: "list_all (\<lambda>x. 0 \<le> x) xs" by simp
  from Cons.IH [OF rest] cumsum_from_lower [OF rest] show ?case by auto
qed

lemma Transaction_valid_deposit:
  assumes "Transaction_post_init t = Inr t'"
  shows "transaction_type t = ''deposit'' \<longrightarrow> 0 < amount t"
  using assms by (auto simp: Transaction_post_init_def split: if_splits)

subsection \<open>The Gain Calculator returns on a non-empty position series\<close>

lemma np_interp_returns:
  assumes "xp \<noteq> []" and "length fp = length xp"
  shows "np_interp x xp fp = Inr (map (np_interp_point xp fp) x)"
  using assms by (simp add: np_interp_def)

lemma interpolate_returns:
  assumes "position_timestamps \<noteq> []"
    and "length position_timestamps = length position_values"
    and "interpolation_method = ''linear'' \<or> interpolation_method = ''cubic''"
  shows "\<exists>P. interpolate_positions_on_timebase scipy position_timestamps position_values tb
               interpolation_method = Inr P \<and> length P = length tb"
proof -
  let ?xp = "map timestamp_of (map normalize_timestamp position_timestamps)"
  let ?x = "map timestamp_of tb"
  have lin: "np_interp ?x ?xp position_values
               = Inr (map (np_interp_point ?xp position_values) ?x)"
    using assms(1,2) by (intro np_interp_returns) simp_all
  from assms(3) show ?thesis
  proof
    assume "interpolation_method = ''linear''"
    with assms(2) lin show ?thesis
      by (simp add: interpolate_positions_on_timebase_def Let_def)
  next
    assume c: "interpolation_method = ''cubic''"
    show ?thesis
    proof (cases scipy)
      case None
      with c assms(2) lin show ?thesis
        by (simp add: interpolate_positions_on_timebase_def Let_def)
    next
      case (Some f)
      with c assms(2) lin show ?thesis
        by (simp add: interpolate_positions_on_timebase_def Let_def)
    qed
  qed
qed

lemma calculate_correct_gains_unfold:
  assumes "tb = create_unified_timebase position_timestamps
                  (map (\<lambda>tx. if tx_timestamp_source = ''created_at'' then created_at tx
                              else timestamp tx) transactions)"
    and "interpolate_positions_on_timebase scipy position_timestamps position_values tb
           interpolation_method = Inr P"
    and "create_transaction_vectors_on_timebase
           (if tx_timestamp_source = ''created_at''
            then map (\<lambda>tx. tx\<lparr>timestamp := created_at tx\<rparr>) transactions else transactions)
           tb (Some P) (map normalize_timestamp position_timestamps) alignment_method 8 3
           (3 / 10, 15 / 10) = Inr (d, w)"
  shows "calculate_correct_gains scipy position_timestamps position_values transactions
           reference_time_index interpolation_method alignment_method tx_timestamp_source
       = (if reference_time_index \<ge> int (length tb) then Inl ValueError
          else
            (case py_get P reference_time_index of
               Inl e \<Rightarrow> Inl e
             | Inr P_t0 \<Rightarrow>
                (case py_get (np_cumsum d) reference_time_index of
                   Inl e \<Rightarrow> Inl e
                 | Inr CDF_D_t0 \<Rightarrow>
                    (case py_get (np_cumsum w) reference_time_index of
                       Inl e \<Rightarrow> Inl e
                     | Inr CDF_W_t0 \<Rightarrow>
                        Inr (tb, P, np_cumsum d, np_cumsum w,
                             gains_of P (np_cumsum d) (np_cumsum w) P_t0 CDF_D_t0 CDF_W_t0)))))"
  unfolding calculate_correct_gains_def Let_def
  using assms(2,3) unfolding assms(1) by (simp cong del: sum.case_cong_weak)

lemma gains_of_nth:
  assumes "i < length P"
  shows "gains_of P D W p0 d0 w0 ! i = P ! i - p0 - (D ! i - d0) + (W ! i - w0)"
  using assms by (simp add: gains_of_def)

lemma gains_of_length: "length (gains_of P D W p0 d0 w0) = length P"
  by (simp add: gains_of_def)

lemma np_cumsum_length: "length (np_cumsum xs) = length xs"
  by (simp add: np_cumsum_def cumsum_from_length)

lemma calculate_correct_gains_returns:
  assumes "position_timestamps \<noteq> []"
    and "length position_timestamps = length position_values"
    and "interpolation_method = ''linear'' \<or> interpolation_method = ''cubic''"
    and "0 \<le> t0"
    and "t0 < int (length (create_unified_timebase position_timestamps
                  (map (\<lambda>tx. if tx_timestamp_source = ''created_at'' then created_at tx
                              else timestamp tx) transactions)))"
  shows "\<exists>tb P D W.
           calculate_correct_gains scipy position_timestamps position_values transactions t0
             interpolation_method alignment_method tx_timestamp_source
             = Inr (tb, P, D, W, gains_of P D W (P ! nat t0) (D ! nat t0) (W ! nat t0))
         \<and> length P = length tb \<and> length D = length tb \<and> length W = length tb
         \<and> nat t0 < length tb"
proof -
  define tb where "tb = create_unified_timebase position_timestamps
                  (map (\<lambda>tx. if tx_timestamp_source = ''created_at'' then created_at tx
                              else timestamp tx) transactions)"
  from interpolate_returns [OF assms(1-3)] obtain P where
    P: "interpolate_positions_on_timebase scipy position_timestamps position_values tb
          interpolation_method = Inr P" and lenP: "length P = length tb"
    by blast
  from create_transaction_vectors_returns obtain d w where
    dw: "create_transaction_vectors_on_timebase
           (if tx_timestamp_source = ''created_at''
            then map (\<lambda>tx. tx\<lparr>timestamp := created_at tx\<rparr>) transactions else transactions)
           tb (Some P) (map normalize_timestamp position_timestamps) alignment_method 8 3
           (3 / 10, 15 / 10) = Inr (d, w)"
    and lend: "length d = length tb" and lenw: "length w = length tb"
    by blast
  from assms(4,5) have t0: "0 \<le> t0" "t0 < int (length tb)" by (simp_all add: tb_def)
  have gP: "py_get P t0 = Inr (P ! nat t0)"
    using t0 lenP by (intro py_get_in_range) simp_all
  have gD: "py_get (np_cumsum d) t0 = Inr (np_cumsum d ! nat t0)"
    using t0 lend by (intro py_get_in_range) (simp_all add: np_cumsum_length)
  have gW: "py_get (np_cumsum w) t0 = Inr (np_cumsum w ! nat t0)"
    using t0 lenw by (intro py_get_in_range) (simp_all add: np_cumsum_length)
  have "calculate_correct_gains scipy position_timestamps position_values transactions t0
          interpolation_method alignment_method tx_timestamp_source
        = Inr (tb, P, np_cumsum d, np_cumsum w,
               gains_of P (np_cumsum d) (np_cumsum w) (P ! nat t0) (np_cumsum d ! nat t0)
                 (np_cumsum w ! nat t0))"
    using calculate_correct_gains_unfold [OF tb_def P dw, of t0] t0 gP gD gW by simp
  moreover have "nat t0 < length tb" using t0 by arith
  ultimately show ?thesis using lenP lend lenw by (auto simp: np_cumsum_length)
qed

lemma interpolate_length:
  assumes "interpolate_positions_on_timebase scipy position_timestamps position_values tb
             interpolation_method = Inr P"
  shows "length P = length tb"
  using assms
  by (auto simp: interpolate_positions_on_timebase_def np_interp_def Let_def
      split: if_splits option.splits)

lemma calculate_correct_gains_result:
  assumes "calculate_correct_gains scipy position_timestamps position_values transactions t0
             interpolation_method alignment_method tx_timestamp_source = Inr (tb, P, D, W, G)"
    and "0 \<le> t0"
  shows "length P = length tb \<and> length D = length tb \<and> length W = length tb
       \<and> nat t0 < length tb
       \<and> G = gains_of P D W (P ! nat t0) (D ! nat t0) (W ! nat t0)"
proof -
  define tb' where "tb' = create_unified_timebase position_timestamps
                  (map (\<lambda>tx. if tx_timestamp_source = ''created_at'' then created_at tx
                              else timestamp tx) transactions)"
  obtain P' where P': "interpolate_positions_on_timebase scipy position_timestamps
      position_values tb' interpolation_method = Inr P'"
  proof (cases "interpolate_positions_on_timebase scipy position_timestamps
      position_values tb' interpolation_method")
    case (Inl e)
    with assms(1) have False
      unfolding calculate_correct_gains_def Let_def tb'_def by simp
    then show ?thesis ..
  next
    case (Inr p)
    then show ?thesis by (rule that)
  qed
  from interpolate_length [OF P'] have lenP: "length P' = length tb'" .
  from create_transaction_vectors_returns obtain d w where
    dw: "create_transaction_vectors_on_timebase
           (if tx_timestamp_source = ''created_at''
            then map (\<lambda>tx. tx\<lparr>timestamp := created_at tx\<rparr>) transactions else transactions)
           tb' (Some P') (map normalize_timestamp position_timestamps) alignment_method 8 3
           (3 / 10, 15 / 10) = Inr (d, w)"
    and lend: "length d = length tb'" and lenw: "length w = length tb'"
    by blast
  note eq = calculate_correct_gains_unfold [OF tb'_def P' dw, of t0]
  have lt: "t0 < int (length tb')"
  proof (rule ccontr)
    assume "\<not> t0 < int (length tb')"
    with eq assms(1) show False by simp
  qed
  have gP: "py_get P' t0 = Inr (P' ! nat t0)"
    using assms(2) lt lenP by (intro py_get_in_range) simp_all
  have gD: "py_get (np_cumsum d) t0 = Inr (np_cumsum d ! nat t0)"
    using assms(2) lt lend by (intro py_get_in_range) (simp_all add: np_cumsum_length)
  have gW: "py_get (np_cumsum w) t0 = Inr (np_cumsum w ! nat t0)"
    using assms(2) lt lenw by (intro py_get_in_range) (simp_all add: np_cumsum_length)
  from eq lt gP gD gW assms(1)
  have "tb = tb'" "P = P'" "D = np_cumsum d" "W = np_cumsum w"
    "G = gains_of P' (np_cumsum d) (np_cumsum w) (P' ! nat t0) (np_cumsum d ! nat t0)
           (np_cumsum w ! nat t0)"
    by simp_all
  moreover have "nat t0 < length tb'" using assms(2) lt by arith
  ultimately show ?thesis using lenP lend lenw by (simp add: np_cumsum_length)
qed

lemma calculate_correct_gains_pinned:
  assumes "calculate_correct_gains scipy position_timestamps position_values transactions t0
             interpolation_method alignment_method tx_timestamp_source = Inr (tb, P, D, W, G)"
  shows "tb = create_unified_timebase position_timestamps
                  (map (\<lambda>tx. if tx_timestamp_source = ''created_at'' then created_at tx
                              else timestamp tx) transactions)
       \<and> interpolate_positions_on_timebase scipy position_timestamps position_values tb
           interpolation_method = Inr P
       \<and> (\<exists>d w. create_transaction_vectors_on_timebase
                  (if tx_timestamp_source = ''created_at''
                   then map (\<lambda>tx. tx\<lparr>timestamp := created_at tx\<rparr>) transactions
                   else transactions)
                  tb (Some P) (map normalize_timestamp position_timestamps)
                  alignment_method 8 3 (3 / 10, 15 / 10) = Inr (d, w)
                \<and> D = np_cumsum d \<and> W = np_cumsum w)"
proof -
  define tb' where "tb' = create_unified_timebase position_timestamps
                  (map (\<lambda>tx. if tx_timestamp_source = ''created_at'' then created_at tx
                              else timestamp tx) transactions)"
  obtain P' where P': "interpolate_positions_on_timebase scipy position_timestamps
      position_values tb' interpolation_method = Inr P'"
  proof (cases "interpolate_positions_on_timebase scipy position_timestamps
      position_values tb' interpolation_method")
    case (Inl e)
    with assms have False
      unfolding calculate_correct_gains_def Let_def tb'_def by simp
    then show ?thesis ..
  next
    case (Inr p)
    then show ?thesis by (rule that)
  qed
  from create_transaction_vectors_returns obtain d w where
    dw: "create_transaction_vectors_on_timebase
           (if tx_timestamp_source = ''created_at''
            then map (\<lambda>tx. tx\<lparr>timestamp := created_at tx\<rparr>) transactions else transactions)
           tb' (Some P') (map normalize_timestamp position_timestamps) alignment_method 8 3
           (3 / 10, 15 / 10) = Inr (d, w)"
    by blast
  note eq = calculate_correct_gains_unfold [OF tb'_def P' dw, of t0]
  from eq assms have "tb = tb'" "P = P'" "D = np_cumsum d" "W = np_cumsum w"
    by (auto split: if_splits sum.splits)
  with P' dw show ?thesis unfolding tb'_def by blast
qed

lemma timestamp_update_keeps_validity:
  assumes "list_all (\<lambda>tx. transaction_type tx = ''deposit'' \<longrightarrow> 0 < amount tx) txs"
  shows "list_all (\<lambda>tx. transaction_type tx = ''deposit'' \<longrightarrow> 0 < amount tx)
           (if b then map (\<lambda>tx. tx\<lparr>timestamp := created_at tx\<rparr>) txs else txs)"
  using assms by (simp add: list_all_iff)

subsection \<open>The gain formula (C1)\<close>

text \<open>
  C1: for a reference index \<open>t0 \<ge> 0\<close>, every result of
  \<^verbatim>\<open>calculate_correct_gains\<close> has the unified timebase of the position and
  transaction timestamps, \<open>P\<close> the positions interpolated on it, \<open>D\<close> and
  \<open>W\<close> the running sums of the deposit and withdrawal vectors that the Transaction
  Mapper returns on it, \<open>t0\<close> inside the (hence non-empty) timebase, arrays of the
  length of the timebase, the gain series
  \<open>gain[i] = P[i] - P[t0] - (D[i] - D[t0]) + (W[i] - W[t0])\<close> at every index and
  \<open>gain[t0] = 0\<close>, for every alignment policy, every timestamp source and every list
  of transactions; and the function does return a result when the position series is not
  empty, has one value per timestamp, the interpolation method is supported and \<open>t0\<close>
  is an index of the unified timebase.  Floats are read as reals.
\<close>

theorem gain_formula:
  assumes "0 \<le> t0"
  shows "(\<forall>tb P D W G.
            calculate_correct_gains scipy position_timestamps position_values transactions t0
              interpolation_method alignment_method tx_timestamp_source = Inr (tb, P, D, W, G)
            \<longrightarrow> tb = create_unified_timebase position_timestamps
                      (map (\<lambda>tx. if tx_timestamp_source = ''created_at'' then created_at tx
                                  else timestamp tx) transactions)
              \<and> interpolate_positions_on_timebase scipy position_timestamps position_values tb
                    interpolation_method = Inr P
              \<and> (\<exists>deposit_vector withdrawal_vector.
                    create_transaction_vectors_on_timebase
                      (if tx_timestamp_source = ''created_at''
                       then map (\<lambda>tx. tx\<lparr>timestamp := created_at tx\<rparr>) transactions
                       else transactions)
                      tb (Some P) (map normalize_timestamp position_timestamps)
                      alignment_method 8 3 (3 / 10, 15 / 10)
                      = Inr (deposit_vector, withdrawal_vector)
                  \<and> D = np_cumsum deposit_vector \<and> W = np_cumsum withdrawal_vector)
              \<and> nat t0 < length tb
              \<and> length P = length tb \<and> length D = length tb \<and> length W = length tb
              \<and> length G = length tb
              \<and> (\<forall>i < length tb.
                    G ! i = P ! i - P ! nat t0 - (D ! i - D ! nat t0) + (W ! i - W ! nat t0))
              \<and> G ! nat t0 = 0)
       \<and> (position_timestamps \<noteq> []
            \<and> length position_timestamps = length position_values
            \<and> (interpolation_method = ''linear'' \<or> interpolation_method = ''cubic'')
            \<and> t0 < int (length (create_unified_timebase position_timestamps
                  (map (\<lambda>tx. if tx_timestamp_source = ''created_at'' then created_at tx
                              else timestamp tx) transactions)))
            \<longrightarrow> (\<exists>tb P D W G.
                   calculate_correct_gains scipy position_timestamps position_values
                     transactions t0 interpolation_method alignment_method tx_timestamp_source
                     = Inr (tb, P, D, W, G)))"
proof (intro conjI allI impI)
  fix tb P D W G
  assume r: "calculate_correct_gains scipy position_timestamps position_values transactions t0
              interpolation_method alignment_method tx_timestamp_source = Inr (tb, P, D, W, G)"
  from calculate_correct_gains_result [OF r assms]
  have len: "length P = length tb" "length D = length tb" "length W = length tb"
    and t0: "nat t0 < length tb"
    and G: "G = gains_of P D W (P ! nat t0) (D ! nat t0) (W ! nat t0)"
    by simp_all
  note pin = calculate_correct_gains_pinned [OF r]
  show "tb = create_unified_timebase position_timestamps
                      (map (\<lambda>tx. if tx_timestamp_source = ''created_at'' then created_at tx
                                  else timestamp tx) transactions)"
    by (rule pin [THEN conjunct1])
  show "interpolate_positions_on_timebase scipy position_timestamps position_values tb
                    interpolation_method = Inr P"
    by (rule pin [THEN conjunct2, THEN conjunct1])
  show "\<exists>deposit_vector withdrawal_vector.
                    create_transaction_vectors_on_timebase
                      (if tx_timestamp_source = ''created_at''
                       then map (\<lambda>tx. tx\<lparr>timestamp := created_at tx\<rparr>) transactions
                       else transactions)
                      tb (Some P) (map normalize_timestamp position_timestamps)
                      alignment_method 8 3 (3 / 10, 15 / 10)
                      = Inr (deposit_vector, withdrawal_vector)
                  \<and> D = np_cumsum deposit_vector \<and> W = np_cumsum withdrawal_vector"
    by (rule pin [THEN conjunct2, THEN conjunct2])
  show "nat t0 < length tb" by (rule t0)
  show "length P = length tb" "length D = length tb" "length W = length tb" by (rule len)+
  show "length G = length tb" by (simp add: G gains_of_length len)
  show "G ! nat t0 = 0" using t0 by (simp add: G gains_of_nth len)
  fix i
  assume "i < length tb"
  then show "G ! i = P ! i - P ! nat t0 - (D ! i - D ! nat t0) + (W ! i - W ! nat t0)"
    by (simp add: G gains_of_nth len)
next
  assume h: "position_timestamps \<noteq> []
            \<and> length position_timestamps = length position_values
            \<and> (interpolation_method = ''linear'' \<or> interpolation_method = ''cubic'')
            \<and> t0 < int (length (create_unified_timebase position_timestamps
                  (map (\<lambda>tx. if tx_timestamp_source = ''created_at'' then created_at tx
                              else timestamp tx) transactions)))"
  then have a: "position_timestamps \<noteq> []"
    and b: "length position_timestamps = length position_values"
    and c: "interpolation_method = ''linear'' \<or> interpolation_method = ''cubic''"
    and d: "t0 < int (length (create_unified_timebase position_timestamps
                  (map (\<lambda>tx. if tx_timestamp_source = ''created_at'' then created_at tx
                              else timestamp tx) transactions)))"
    by simp_all
  from calculate_correct_gains_returns [OF a b c assms d]
  show "\<exists>tb P D W G.
          calculate_correct_gains scipy position_timestamps position_values
            transactions t0 interpolation_method alignment_method tx_timestamp_source
            = Inr (tb, P, D, W, G)"
    by blast
qed

theorem gain_formula_witness:
  "(0::int) \<le> 0
   \<and> [Aware 0 0, Aware 3600000000 0, Aware 7200000000 0] \<noteq> []
   \<and> length [Aware 0 0, Aware 3600000000 0, Aware 7200000000 0] = length [100, 100, 200 :: real]
   \<and> 0 < int (length (create_unified_timebase
                        [Aware 0 0, Aware 3600000000 0, Aware 7200000000 0]
                        [Aware 7200000000 0]))
   \<and> calculate_correct_gains None [Aware 0 0, Aware 3600000000 0, Aware 7200000000 0]
        [100, 100, 200]
        [\<lparr>timestamp = Aware 7200000000 0, wallet_address = ''addr1'', market_id = ''m'',
          asset_symbol = ''usdc'', amount = 100, transaction_type = ''deposit'',
          tx_notes = None, created_at = Aware 7200000000 0\<rparr>]
        0 ''linear'' ''exact'' ''timestamp''
       = Inr ([Aware 0 0, Aware 3600000000 0, Aware 7200000000 0], [100, 100, 200],
              [0, 0, 100], [0, 0, 0], [0, 0, 0])
   \<and> [0, 0, 0 :: real] ! nat 0 = 0
   \<and> [0, 0, 0 :: real] ! 2 = [100, 100, 200] ! 2 - [100, 100, 200] ! nat 0
        - ([0, 0, 100] ! 2 - [0, 0, 100] ! nat 0) + ([0, 0, 0] ! 2 - [0, 0, 0] ! nat 0)"
proof -
  let ?txs = "[\<lparr>timestamp = Aware 7200000000 0, wallet_address = ''addr1'', market_id = ''m'',
          asset_symbol = ''usdc'', amount = 100, transaction_type = ''deposit'',
          tx_notes = None, created_at = Aware 7200000000 0\<rparr>]"
  have h: "0 < int (length (create_unified_timebase
                        [Aware 0 0, Aware 3600000000 0, Aware 7200000000 0]
                        [Aware 7200000000 0]))"
    by (simp add: create_unified_timebase_def)
  have r: "calculate_correct_gains None [Aware 0 0, Aware 3600000000 0, Aware 7200000000 0]
        [100, 100, 200] ?txs 0 ''linear'' ''exact'' ''timestamp''
       = Inr ([Aware 0 0, Aware 3600000000 0, Aware 7200000000 0], [100, 100, 200],
              [0, 0, 100], [0, 0, 0], [0, 0, 0])"
    by (simp add: gain_pipeline_defs upt_rec)
  have z: "(0::int) \<le> 0" by simp
  from gain_formula [OF z, of None "[Aware 0 0, Aware 3600000000 0, Aware 7200000000 0]"
      "[100, 100, 200]" ?txs "''linear''" "''exact''" "''timestamp''"] r
  have "[0, 0, 0 :: real] ! nat 0 = 0
   \<and> [0, 0, 0 :: real] ! 2 = [100, 100, 200] ! 2 - [100, 100, 200] ! nat 0
        - ([0, 0, 100] ! 2 - [0, 0, 100] ! nat 0) + ([0, 0, 0] ! 2 - [0, 0, 0] ! nat 0)"
    by simp
  with h r show ?thesis by simp
qed

subsection \<open>Same-index events (C2)\<close>

text \<open>
  C2 states that events resolved to the same timebase index are summed in the deposit
  (withdrawal) vector.  The mapper assigns instead of adding: with position samples at
  0 s and 10 s, two deposits of 100 and 50 at 2 s and 5 s, and the snap-to-next-sample
  policy, both deposits resolve to index 3 and the deposit vector holds 50 there, not 150;
  the deposit CDF of the whole pipeline ends at 50 and the final gain is 100 instead of 0.
\<close>

theorem same_index_events_overwrite:
  "create_transaction_vectors_on_timebase
     [\<lparr>timestamp = Aware 2000000 0, wallet_address = ''addr1'', market_id = ''m'',
       asset_symbol = ''usdc'', amount = 100, transaction_type = ''deposit'', tx_notes = None,
       created_at = Aware 2000000 0\<rparr>,
      \<lparr>timestamp = Aware 5000000 0, wallet_address = ''addr1'', market_id = ''m'',
       asset_symbol = ''usdc'', amount = 50, transaction_type = ''deposit'', tx_notes = None,
       created_at = Aware 5000000 0\<rparr>]
     [Aware 0 0, Aware 2000000 0, Aware 5000000 0, Aware 10000000 0]
     (Some [100, 130, 175, 250]) [Aware 0 0, Aware 10000000 0] ''snap_to_next_pos'' 8 3
     (3 / 10, 15 / 10)
   = Inr ([0, 0, 0, 50], [0, 0, 0, 0])
   \<and> calculate_correct_gains None [Aware 0 0, Aware 10000000 0] [100, 250]
       [\<lparr>timestamp = Aware 2000000 0, wallet_address = ''addr1'', market_id = ''m'',
         asset_symbol = ''usdc'', amount = 100, transaction_type = ''deposit'', tx_notes = None,
         created_at = Aware 2000000 0\<rparr>,
        \<lparr>timestamp = Aware 5000000 0, wallet_address = ''addr1'', market_id = ''m'',
         asset_symbol = ''usdc'', amount = 50, transaction_type = ''deposit'', tx_notes = None,
         created_at = Aware 5000000 0\<rparr>]
       0 ''linear'' ''snap_to_next_pos'' ''timestamp''
     = Inr ([Aware 0 0, Aware 2000000 0, Aware 5000000 0, Aware 10000000 0],
            [100, 130, 175, 250], [0, 0, 0, 50], [0, 0, 0, 0], [0, 30, 75, 100])"
  by (simp add: gain_pipeline_defs upt_rec)

subsection \<open>Exact lookup of a naive timestamp (C3)\<close>

text \<open>
  C3 states that under the exact policy the lookup of a transaction timestamp in the
  unified timebase succeeds for every timestamp, timezone-naive ones included.  The
  builder normalises a naive timestamp to an aware UTC value, the lookup compares the
  timebase with the timestamp as given, and a naive value is never equal to an aware
  one: the deposit below is in the timebase, finds no match and is dropped, so both
  CDFs of the pipeline stay at zero.
\<close>

theorem naive_timestamp_unmatched:
  "create_unified_timebase [Aware 0 0] [Naive 1000000] = [Aware 0 0, Aware 1000000 0]
   \<and> filter (\<lambda>k. dt_eq ([Aware 0 0, Aware 1000000 0] ! k) (Naive 1000000))
        [0..<length [Aware 0 0, Aware 1000000 0]] = []
   \<and> calculate_correct_gains None [Aware 0 0] [5]
        [\<lparr>timestamp = Naive 1000000, wallet_address = ''addr1'', market_id = ''m'',
          asset_symbol = ''usdc'', amount = 100, transaction_type = ''deposit'', tx_notes = None,
          created_at = Naive 1000000\<rparr>]
        0 ''linear'' ''exact'' ''timestamp''
      = Inr ([Aware 0 0, Aware 1000000 0], [5, 5], [0, 0], [0, 0], [0, 0])"
  by (simp add: gain_pipeline_defs upt_rec)

subsection \<open>Too few points for the gate (C4)\<close>

text \<open>
  With fewer than \<open>max(min_points, polynomial_order + 1)\<close> samples the data\_range
  fallback path keeps the baseline decision, whether or not the gate is enabled.
\<close>

lemma fallback_gate_insufficient_points:
  assumes "int (length cp_vals_use) < max (min_points dg) (polynomial_order dg + 1)"
  shows "fallback_path_decision np_polyfit dg wmax x_time_use cp_vals_use
           = (baseline_decision wmax, None)"
  using assms by (simp add: fallback_path_decision_def fallback_gate_def)

text \<open>The keyword-reference path answers HOLD there, whatever the caps are.\<close>

lemma keyword_gate_insufficient_points:
  assumes "enabled dg"
    and "int (length cp_vals) < max (min_points dg) (polynomial_order dg + 1)"
  shows "keyword_path_decision np_polyfit dg wmax x_time cp_vals = (0, Some False)"
  using assms by (simp add: keyword_path_decision_def keyword_gate_def)

text \<open>
  C4 states that in both paths too few samples give the baseline decision, WITHDRAW\_OK
  iff the total cap is positive.  In the keyword-reference path, with two samples,
  \<open>min_points = 3\<close> and one wallet whose cap is 5, the decision is HOLD (0) while the
  baseline decision is WITHDRAW\_OK (1).
\<close>

theorem keyword_path_insufficient_points_holds:
  "keyword_path_decision np_polyfit
     \<lparr>enabled = True, apply_in_fallback = True, gate_method = ''polynomial_fit'',
      polynomial_order = 1, k_sigma = 2, min_points = 3, threshold_mode = ''stddev'',
      central_confidence = 68 / 100, sigma_epsilon = 1 / 1000000,
      exclude_last_for_sigma = True\<rparr>
     [\<lparr>wb_wallet_address = ''addr1'', wmax_usd = 5, v_t1_usd = 105\<rparr>]
     [Aware 0 0, Aware 3600000000 0] [100, 105] = (0, Some False)
   \<and> baseline_decision [\<lparr>wb_wallet_address = ''addr1'', wmax_usd = 5, v_t1_usd = 105\<rparr>] = 1"
  by (simp add: keyword_path_decision_def keyword_gate_def baseline_decision_def)

subsection \<open>Empty inputs (C5)\<close>

text \<open>
  C5 states that on empty inputs every component returns empty outputs and that
  \<^verbatim>\<open>calculate_correct_gains\<close> does not raise.  It raises ValueError:
\<close>

theorem empty_inputs_counterexample:
  "calculate_correct_gains None [] [] [] 0 ''linear'' ''none'' ''timestamp'' = Inl ValueError"
  by (simp add: gain_pipeline_defs)

text \<open>
  C5 as amended: on empty inputs the Timebase Builder returns the empty timebase, the
  Transaction Mapper returns two empty vectors and the CDF of an empty vector is empty,
  none of them raising; the Position Interpolator raises ValueError on an empty position
  series, and so does \<^verbatim>\<open>calculate_correct_gains\<close>, for every reference index,
  interpolation method and alignment policy.
\<close>

theorem empty_inputs_raise:
  "create_unified_timebase [] [] = []
   \<and> create_transaction_vectors_on_timebase [] [] interpolated_positions position_timestamps_set
        method window_bins z_threshold magnitude_band = Inr ([], [])
   \<and> np_cumsum [] = []
   \<and> interpolate_positions_on_timebase scipy [] [] unified_timebase interpolation_method
       = Inl ValueError
   \<and> calculate_correct_gains scipy [] [] [] reference_time_index interpolation_method
        alignment_method tx_timestamp_source = Inl ValueError"
  by (simp add: gain_pipeline_defs split: option.splits)

subsection \<open>CDF monotonicity (C6)\<close>

text \<open>
  C6: for every list of transactions that pass the construction check of
  \<^verbatim>\<open>Transaction.__post_init__\<close> (deposit amount positive, withdrawal amount
  negative), every timebase and every alignment policy, the Transaction Mapper returns
  and the running sums of the deposit vector and of the withdrawal vector, which are the
  deposit and withdrawal CDFs, are non-decreasing; and in every result of
  \<^verbatim>\<open>calculate_correct_gains\<close> on such transactions the deposit CDF and the
  withdrawal CDF are non-decreasing.
\<close>

theorem cdf_monotone:
  assumes "list_all (\<lambda>t. Transaction_post_init t = Inr t) transactions"
  shows "(\<exists>deposit_vector withdrawal_vector.
           create_transaction_vectors_on_timebase transactions unified_timebase
             interpolated_positions position_timestamps_set method window_bins z_threshold
             magnitude_band = Inr (deposit_vector, withdrawal_vector)
         \<and> sorted (np_cumsum deposit_vector) \<and> sorted (np_cumsum withdrawal_vector))
       \<and> (\<forall>tb P D W G.
            calculate_correct_gains scipy position_timestamps position_values transactions
              reference_time_index interpolation_method method tx_timestamp_source
              = Inr (tb, P, D, W, G)
            \<longrightarrow> sorted D \<and> sorted W)"
proof (intro conjI allI impI)
  from assms have valid:
    "list_all (\<lambda>tx. transaction_type tx = ''deposit'' \<longrightarrow> 0 < amount tx) transactions"
    unfolding list_all_iff using Transaction_valid_deposit by blast
  from create_transaction_vectors_returns obtain d w where
    "create_transaction_vectors_on_timebase transactions unified_timebase
       interpolated_positions position_timestamps_set method window_bins z_threshold
       magnitude_band = Inr (d, w)"
    and "list_all (\<lambda>tx. transaction_type tx = ''deposit'' \<longrightarrow> 0 < amount tx) transactions
           \<longrightarrow> list_all (\<lambda>x. 0 \<le> x) d \<and> list_all (\<lambda>x. 0 \<le> x) w"
    by blast
  with valid
  show "\<exists>deposit_vector withdrawal_vector.
           create_transaction_vectors_on_timebase transactions unified_timebase
             interpolated_positions position_timestamps_set method window_bins z_threshold
             magnitude_band = Inr (deposit_vector, withdrawal_vector)
         \<and> sorted (np_cumsum deposit_vector) \<and> sorted (np_cumsum withdrawal_vector)"
    by (auto simp: np_cumsum_def intro: cumsum_from_sorted)
  fix tb P D W G
  assume r: "calculate_correct_gains scipy position_timestamps position_values transactions
              reference_time_index interpolation_method method tx_timestamp_source
              = Inr (tb, P, D, W, G)"
  let ?txs = "if tx_timestamp_source = ''created_at''
              then map (\<lambda>tx. tx\<lparr>timestamp := created_at tx\<rparr>) transactions
              else transactions"
  from calculate_correct_gains_pinned [OF r] obtain d w where
    dw: "create_transaction_vectors_on_timebase ?txs tb (Some P)
           (map normalize_timestamp position_timestamps) method 8 3 (3 / 10, 15 / 10)
         = Inr (d, w)"
    and D: "D = np_cumsum d" and W: "W = np_cumsum w"
    by blast
  have valid': "list_all (\<lambda>tx. transaction_type tx = ''deposit'' \<longrightarrow> 0 < amount tx) ?txs"
    by (rule timestamp_update_keeps_validity [OF valid])
  from create_transaction_vectors_returns
    [of ?txs tb "Some P" "map normalize_timestamp position_timestamps" "method" 8 3
        "(3 / 10, 15 / 10)"]
  obtain d' w' where
    dw': "create_transaction_vectors_on_timebase ?txs tb (Some P)
           (map normalize_timestamp position_timestamps) method 8 3 (3 / 10, 15 / 10)
         = Inr (d', w')"
    and nn: "list_all (\<lambda>tx. transaction_type tx = ''deposit'' \<longrightarrow> 0 < amount tx) ?txs
           \<longrightarrow> list_all (\<lambda>x. 0 \<le> x) d' \<and> list_all (\<lambda>x. 0 \<le> x) w'"
    by blast
  from dw dw' have "d' = d" "w' = w" by simp_all
  with nn valid' have "list_all (\<lambda>x. 0 \<le> x) d" "list_all (\<lambda>x. 0 \<le> x) w" by simp_all
  then show "sorted D" "sorted W"
    unfolding D W by (auto simp: np_cumsum_def intro: cumsum_from_sorted)
qed

theorem cdf_monotone_witness:
  "list_all (\<lambda>t. Transaction_post_init t = Inr t)
      [\<lparr>timestamp = Aware 1000000 0, wallet_address = ''addr1'', market_id = ''m'',
        asset_symbol = ''usdc'', amount = 100, transaction_type = ''deposit'',
        tx_notes = None, created_at = Aware 1000000 0\<rparr>,
       \<lparr>timestamp = Aware 2000000 0, wallet_address = ''addr1'', market_id = ''m'',
        asset_symbol = ''usdc'', amount = - 40, transaction_type = ''withdrawal'',
        tx_notes = None, created_at = Aware 2000000 0\<rparr>]
   \<and> create_transaction_vectors_on_timebase
        [\<lparr>timestamp = Aware 1000000 0, wallet_address = ''addr1'', market_id = ''m'',
          asset_symbol = ''usdc'', amount = 100, transaction_type = ''deposit'',
          tx_notes = None, created_at = Aware 1000000 0\<rparr>,
         \<lparr>timestamp = Aware 2000000 0, wallet_address = ''addr1'', market_id = ''m'',
          asset_symbol = ''usdc'', amount = - 40, transaction_type = ''withdrawal'',
          tx_notes = None, created_at = Aware 2000000 0\<rparr>]
        [Aware 0 0, Aware 1000000 0, Aware 2000000 0] None [] ''exact'' 8 3 (3 / 10, 15 / 10)
        = Inr ([0, 100, 0], [0, 0, 40])
   \<and> sorted (np_cumsum [0, 100, 0]) \<and> sorted (np_cumsum [0, 0, 40])
   \<and> calculate_correct_gains None [Aware 0 0, Aware 2000000 0] [100, 180]
        [\<lparr>timestamp = Aware 1000000 0, wallet_address = ''addr1'', market_id = ''m'',
          asset_symbol = ''usdc'', amount = 100, transaction_type = ''deposit'',
          tx_notes = None, created_at = Aware 1000000 0\<rparr>,
         \<lparr>timestamp = Aware 2000000 0, wallet_address = ''addr1'', market_id = ''m'',
          asset_symbol = ''usdc'', amount = - 40, transaction_type = ''withdrawal'',
          tx_notes = None, created_at = Aware 2000000 0\<rparr>]
        0 ''linear'' ''exact'' ''timestamp''
       = Inr ([Aware 0 0, Aware 1000000 0, Aware 2000000 0], [100, 140, 180],
              [0, 100, 100], [0, 0, 40], [0, - 60, 20])
   \<and> sorted [0, 100, 100 :: real] \<and> sorted [0, 0, 40 :: real]"
proof -
  let ?txs = "[\<lparr>timestamp = Aware 1000000 0, wallet_address = ''addr1'', market_id = ''m'',
          asset_symbol = ''usdc'', amount = 100, transaction_type = ''deposit'',
          tx_notes = None, created_at = Aware 1000000 0\<rparr>,
         \<lparr>timestamp = Aware 2000000 0, wallet_address = ''addr1'', market_id = ''m'',
          asset_symbol = ''usdc'', amount = - 40, transaction_type = ''withdrawal'',
          tx_notes = None, created_at = Aware 2000000 0\<rparr>]"
  have v: "list_all (\<lambda>t. Transaction_post_init t = Inr t) ?txs"
    by (simp add: Transaction_post_init_def blank_def is_space_def)
  have m: "create_transaction_vectors_on_timebase ?txs
        [Aware 0 0, Aware 1000000 0, Aware 2000000 0] None [] ''exact'' 8 3 (3 / 10, 15 / 10)
        = Inr ([0, 100, 0], [0, 0, 40])"
    by (simp add: gain_pipeline_defs upt_rec)
  have r: "calculate_correct_gains None [Aware 0 0, Aware 2000000 0] [100, 180] ?txs
        0 ''linear'' ''exact'' ''timestamp''
       = Inr ([Aware 0 0, Aware 1000000 0, Aware 2000000 0], [100, 140, 180],
              [0, 100, 100], [0, 0, 40], [0, - 60, 20])"
    by (simp add: gain_pipeline_defs upt_rec)
  from cdf_monotone [OF v, of "[Aware 0 0, Aware 1000000 0, Aware 2000000 0]" None "[]"
      "''exact''" 8 3 "(3 / 10, 15 / 10)" None "[Aware 0 0, Aware 2000000 0]" "[100, 180]" 0
      "''linear''" "''timestamp''"] m r
  have "sorted (np_cumsum [0, 100, 0 :: real]) \<and> sorted (np_cumsum [0, 0, 40 :: real])
      \<and> sorted [0, 100, 100 :: real] \<and> sorted [0, 0, 40 :: real]"
    by simp
  with v m r show ?thesis by simp
qed

subsection \<open>Price mismatch hysteresis (C7)\<close>





subsection \<open>Exactness of the interpolation at the samples (C8)\<close>

lemma interp_index_at_sample:
  assumes "sorted_wrt (<) xp" and "i < length xp"
  shows "interp_index (xp ! i) xp = i"
proof -
  let ?P = "\<lambda>a. a \<le> xp ! i"
  have le: "?P (tl xp ! k)" if "k < i" "k < length (tl xp)" for k
  proof -
    from that have "tl xp ! k = xp ! Suc k" by (simp add: nth_tl)
    moreover have "xp ! Suc k \<le> xp ! i"
    proof (cases "Suc k = i")
      case True
      then show ?thesis by simp
    next
      case False
      with that have "Suc k < i" by simp
      from sorted_wrt_nth_less [OF assms(1) this assms(2)] show ?thesis by simp
    qed
    ultimately show ?thesis by simp
  qed
  have gt: "\<not> ?P (tl xp ! i)" if "i < length (tl xp)"
  proof -
    from that have eq: "tl xp ! i = xp ! Suc i" by (simp add: nth_tl)
    from that have "Suc i < length xp" by simp
    from sorted_wrt_nth_less [OF assms(1) _ this, of i] eq show ?thesis by simp
  qed
  have "takeWhile ?P (tl xp) = take i (tl xp)"
    by (rule takeWhile_eq_take_P_nth) (use le gt in auto)
  with assms(2) show ?thesis by (simp add: interp_index_def)
qed

lemma np_interp_point_at_sample:
  assumes "sorted_wrt (<) xp" and "i < length xp" and "length fp = length xp"
  shows "np_interp_point xp fp (xp ! i) = fp ! i"
proof -
  from assms(2) have ne: "xp \<noteq> []" by auto
  have last_ge: "xp ! i \<le> last xp"
  proof (cases "i = length xp - 1")
    case True
    with ne show ?thesis by (simp add: last_conv_nth)
  next
    case False
    with assms(2) have "i < length xp - 1" by simp
    from sorted_wrt_nth_less [OF assms(1) this] ne show ?thesis
      by (simp add: last_conv_nth)
  qed
  have hd_le: "hd xp \<le> xp ! i"
  proof (cases "i = 0")
    case True
    with ne show ?thesis by (simp add: hd_conv_nth)
  next
    case False
    then have "0 < i" by simp
    from sorted_wrt_nth_less [OF assms(1) this assms(2)] ne show ?thesis
      by (simp add: hd_conv_nth)
  qed
  from last_ge hd_le interp_index_at_sample [OF assms(1,2)] show ?thesis
    by (simp add: np_interp_point_def Let_def)
qed

lemma dt_eq_normalized_timestamp:
  assumes "dt_eq t (normalize_timestamp s)"
  shows "timestamp_of t = timestamp_of (normalize_timestamp s)"
  using assms by (cases t; cases s) (simp_all add: timestamp_of_def)

lemma position_numeric_strict:
  assumes "sorted_wrt (<) (map (\<lambda>t. utc_instant (normalize_timestamp t)) position_timestamps)"
  shows "sorted_wrt (<) (map timestamp_of (map normalize_timestamp position_timestamps))"
proof -
  from assms have
    "sorted_wrt (\<lambda>a b. utc_instant (normalize_timestamp a) < utc_instant (normalize_timestamp b))
       position_timestamps"
    by (simp add: sorted_wrt_map)
  then have
    "sorted_wrt (\<lambda>a b. timestamp_of (normalize_timestamp a) < timestamp_of (normalize_timestamp b))
       position_timestamps"
    by (rule sorted_wrt_mono_rel [rotated]) (simp add: timestamp_of_def divide_strict_right_mono)
  then show ?thesis by (simp add: sorted_wrt_map)
qed

lemma list_all_zip_nth:
  assumes "list_all (\<lambda>p. Q (fst p) (snd p)) (zip xs ys)"
    and "i < length xs" and "length xs = length ys"
  shows "Q (xs ! i) (ys ! i)"
proof -
  from assms(2,3) have "i < length (zip xs ys)" by simp
  with assms(1) have "Q (fst (zip xs ys ! i)) (snd (zip xs ys ! i))"
    unfolding list_all_length by blast
  with assms(2,3) show ?thesis by simp
qed

text \<open>
  A position series maps instants to values, so its sample timestamps are strictly
  increasing once sorted.  Without that no interpolation can be exact: of two samples at
  one instant the linear method returns the value of the last.
\<close>

lemma duplicate_samples_keep_last:
  "interpolate_positions_on_timebase None [Aware 0 0, Aware 0 0] [1, 2] [Aware 0 0] ''linear''
     = Inr [2]"
  by (simp add: gain_pipeline_defs)

text \<open>
  C8: for position samples with strictly increasing timestamps and every target
  timebase, the interpolation returns one value per timebase point and reproduces the
  value of every sample at every timebase point equal to the sample's timestamp, for the
  linear method, for the cubic method with fewer than 4 samples or without scipy (the
  fallback to linear), and for the cubic method with 4 or more samples.  In the last case
  the spline is scipy's: the theorem takes from it only that, at a sample abscissa, it
  returns either NaN (which the code then fills by linear interpolation) or the sample
  value, as an interpolating spline does.
\<close>

theorem interpolation_exact_at_samples:
  assumes "length position_timestamps = length position_values"
    and "sorted_wrt (<) (map (\<lambda>t. utc_instant (normalize_timestamp t)) position_timestamps)"
    and "interpolation_method = ''linear'' \<or> interpolation_method = ''cubic''"
    and "\<forall>f. interpolation_method = ''cubic'' \<and> scipy = Some f \<and> 4 \<le> length position_values \<longrightarrow>
           list_all
             (\<lambda>p. f (map timestamp_of (map normalize_timestamp position_timestamps))
                      position_values (fst p) = None
                  \<or> f (map timestamp_of (map normalize_timestamp position_timestamps))
                      position_values (fst p) = Some (snd p))
             (zip (map timestamp_of (map normalize_timestamp position_timestamps))
                  position_values)"
    and "i < length position_timestamps"
    and "k < length unified_timebase"
    and "dt_eq (unified_timebase ! k) (normalize_timestamp (position_timestamps ! i))"
  shows "\<exists>P. interpolate_positions_on_timebase scipy position_timestamps position_values
               unified_timebase interpolation_method = Inr P
             \<and> length P = length unified_timebase
             \<and> P ! k = position_values ! i"
proof -
  define xp where "xp = map timestamp_of (map normalize_timestamp position_timestamps)"
  define x where "x = map timestamp_of unified_timebase"
  define L where "L = map (np_interp_point xp position_values) x"
  have lenxp: "length xp = length position_values" using assms(1) by (simp add: xp_def)
  from assms(5) have ne: "xp \<noteq> []" by (auto simp: xp_def)
  have lin: "np_interp x xp position_values = Inr L"
    unfolding L_def using ne lenxp by (intro np_interp_returns) simp_all
  have xk: "x ! k = xp ! i"
    using assms(5,6) dt_eq_normalized_timestamp [OF assms(7)] by (simp add: x_def xp_def)
  have strict: "sorted_wrt (<) xp"
    unfolding xp_def by (rule position_numeric_strict [OF assms(2)])
  have ixp: "i < length xp" using assms(5) by (simp add: xp_def)
  have exact: "np_interp_point xp position_values (xp ! i) = position_values ! i"
    using strict ixp lenxp by (intro np_interp_point_at_sample) simp_all
  have lenL: "length L = length unified_timebase" by (simp add: L_def x_def)
  have Lk: "L ! k = position_values ! i"
    using xk exact assms(6) by (simp add: L_def x_def)
  have unfold: "interpolate_positions_on_timebase scipy position_timestamps position_values
      unified_timebase interpolation_method =
      (if interpolation_method = ''linear'' then np_interp x xp position_values
       else if interpolation_method = ''cubic'' then
         (case scipy of
            None \<Rightarrow> np_interp x xp position_values
          | Some f \<Rightarrow>
              if length position_values < 4 then np_interp x xp position_values
              else Inr (map (\<lambda>x. case f xp position_values x of
                                     Some v \<Rightarrow> v
                                   | None \<Rightarrow> np_interp_point xp position_values x) x))
       else Inl ValueError)"
    unfolding interpolate_positions_on_timebase_def Let_def xp_def x_def
    using assms(1) by simp
  show ?thesis
  proof (cases "interpolation_method = ''linear''")
    case True
    with unfold lin have "interpolate_positions_on_timebase scipy position_timestamps
        position_values unified_timebase interpolation_method = Inr L" by simp
    with lenL Lk show ?thesis by blast
  next
    case False
    with assms(3) have c: "interpolation_method = ''cubic''" by simp
    show ?thesis
    proof (cases scipy)
      case None
      with unfold c lin have "interpolate_positions_on_timebase scipy position_timestamps
          position_values unified_timebase interpolation_method = Inr L" by simp
      with lenL Lk show ?thesis by blast
    next
      case (Some f)
      show ?thesis
      proof (cases "length position_values < 4")
        case True
        with unfold c Some lin have "interpolate_positions_on_timebase scipy
            position_timestamps position_values unified_timebase interpolation_method = Inr L"
          by simp
        with lenL Lk show ?thesis by blast
      next
        case False
        define C where "C = map (\<lambda>x. case f xp position_values x of
                               Some v \<Rightarrow> v
                             | None \<Rightarrow> np_interp_point xp position_values x) x"
        from False Some c unfold
        have eq: "interpolate_positions_on_timebase scipy position_timestamps position_values
                    unified_timebase interpolation_method = Inr C"
          by (simp add: C_def)
        from False have four: "4 \<le> length position_values" by simp
        from assms(4) c Some four
        have knots: "list_all
             (\<lambda>p. f xp position_values (fst p) = None
                  \<or> f xp position_values (fst p) = Some (snd p))
             (zip xp position_values)"
          unfolding xp_def by blast
        from list_all_zip_nth [where Q = "\<lambda>a b. f xp position_values a = None
              \<or> f xp position_values a = Some b", OF knots ixp lenxp]
        have knot: "f xp position_values (xp ! i) = None
              \<or> f xp position_values (xp ! i) = Some (position_values ! i)" .
        have kx: "k < length x" using assms(6) by (simp add: x_def)
        have Ck: "C ! k = (case f xp position_values (xp ! i) of
                             Some v \<Rightarrow> v
                           | None \<Rightarrow> np_interp_point xp position_values (xp ! i))"
          using kx xk by (simp add: C_def split: option.splits)
        from knot have "C ! k = position_values ! i"
        proof
          assume "f xp position_values (xp ! i) = None"
          with Ck exact show ?thesis by simp
        next
          assume "f xp position_values (xp ! i) = Some (position_values ! i)"
          with Ck show ?thesis by simp
        qed
        moreover have "length C = length unified_timebase" by (simp add: C_def x_def)
        ultimately show ?thesis using eq by blast
      qed
    qed
  qed
qed

theorem interpolation_exact_at_samples_witness:
  "length [Aware 0 0, Aware 1000000 0, Aware 2000000 0, Aware 3000000 0]
     = length [100, 110, 130, 160 :: real]
   \<and> sorted_wrt (<) (map (\<lambda>t. utc_instant (normalize_timestamp t))
                        [Aware 0 0, Aware 1000000 0, Aware 2000000 0, Aware 3000000 0])
   \<and> list_all
        (\<lambda>p. map_of (zip (map timestamp_of (map normalize_timestamp
                             [Aware 0 0, Aware 1000000 0, Aware 2000000 0, Aware 3000000 0]))
                          [100, 110, 130, 160 :: real]) (fst p) = None
             \<or> map_of (zip (map timestamp_of (map normalize_timestamp
                             [Aware 0 0, Aware 1000000 0, Aware 2000000 0, Aware 3000000 0]))
                          [100, 110, 130, 160 :: real]) (fst p) = Some (snd p))
        (zip (map timestamp_of (map normalize_timestamp
                [Aware 0 0, Aware 1000000 0, Aware 2000000 0, Aware 3000000 0]))
             [100, 110, 130, 160 :: real])
   \<and> (2::nat) < length [Aware 0 0, Aware 1000000 0, Aware 2000000 0, Aware 3000000 0]
   \<and> (3::nat) < length [Aware 0 0, Aware 500000 0, Aware 1000000 0, Aware 2000000 0,
                         Aware 3000000 0]
   \<and> dt_eq ([Aware 0 0, Aware 500000 0, Aware 1000000 0, Aware 2000000 0, Aware 3000000 0] ! 3)
        (normalize_timestamp
           ([Aware 0 0, Aware 1000000 0, Aware 2000000 0, Aware 3000000 0] ! 2))
   \<and> interpolate_positions_on_timebase (Some (\<lambda>xp fp x. map_of (zip xp fp) x))
        [Aware 0 0, Aware 1000000 0, Aware 2000000 0, Aware 3000000 0] [100, 110, 130, 160]
        [Aware 0 0, Aware 500000 0, Aware 1000000 0, Aware 2000000 0, Aware 3000000 0] ''cubic''
       = Inr [100, 105, 110, 130, 160]
   \<and> [100, 105, 110, 130, 160 :: real] ! 3 = [100, 110, 130, 160] ! 2"
proof -
  define pts where "pts = [Aware 0 0, Aware 1000000 0, Aware 2000000 0, Aware 3000000 0]"
  define vals where "vals = [100, 110, 130, 160 :: real]"
  define tb where
    "tb = [Aware 0 0, Aware 500000 0, Aware 1000000 0, Aware 2000000 0, Aware 3000000 0]"
  define f where "f = (\<lambda>(xp :: real list) (fp :: real list) x. map_of (zip xp fp) x)"
  have xp: "map timestamp_of (map normalize_timestamp pts) = [0, 1, 2, 3]"
    by (simp add: pts_def timestamp_of_def)
  have a1: "length pts = length vals" by (simp add: pts_def vals_def)
  have a2: "sorted_wrt (<) (map (\<lambda>t. utc_instant (normalize_timestamp t)) pts)"
    by (simp add: pts_def)
  have a3: "''cubic'' = ''linear'' \<or> ''cubic'' = ''cubic''" by simp
  have kn: "list_all
        (\<lambda>p. f (map timestamp_of (map normalize_timestamp pts)) vals (fst p) = None
             \<or> f (map timestamp_of (map normalize_timestamp pts)) vals (fst p) = Some (snd p))
        (zip (map timestamp_of (map normalize_timestamp pts)) vals)"
    unfolding xp by (simp add: f_def vals_def)
  then have a4: "\<forall>g. ''cubic'' = ''cubic'' \<and> Some f = Some g \<and> 4 \<le> length vals \<longrightarrow>
           list_all
             (\<lambda>p. g (map timestamp_of (map normalize_timestamp pts)) vals (fst p) = None
                  \<or> g (map timestamp_of (map normalize_timestamp pts)) vals (fst p)
                      = Some (snd p))
             (zip (map timestamp_of (map normalize_timestamp pts)) vals)"
    by blast
  have a5: "(2::nat) < length pts" by (simp add: pts_def)
  have a6: "(3::nat) < length tb" by (simp add: tb_def)
  have a7: "dt_eq (tb ! 3) (normalize_timestamp (pts ! 2))" by (simp add: tb_def pts_def)
  have tbn: "map timestamp_of tb = [0, 1 / 2, 1, 2, 3]"
    by (simp add: tb_def timestamp_of_def)
  have r: "interpolate_positions_on_timebase (Some f) pts vals tb ''cubic''
             = Inr [100, 105, 110, 130, 160]"
    unfolding interpolate_positions_on_timebase_def Let_def xp tbn
    by (simp add: a1 f_def vals_def np_interp_point_def interp_index_def)
  from interpolation_exact_at_samples [OF a1 a2 a3 a4 a5 a6 a7] r
  have v: "[100, 105, 110, 130, 160 :: real] ! 3 = vals ! 2" by simp
  from a1 a2 kn a5 a6 a7 r v show ?thesis
    unfolding pts_def vals_def tb_def f_def by (intro conjI)
qed

subsection \<open>Per-wallet caps (C9)\<close>

lemma per_wallet_loop_entries:
  assumes "per_wallet_loop scipy am src c all_txs wallet_series_dict = Inr xs"
    and "gb \<in> set xs"
  shows "wmax_usd (snd gb) = max 0 (c * fst gb)
       \<and> (\<exists>series items.
             (wb_wallet_address (snd gb), series) \<in> set wallet_series_dict \<and> series \<noteq> []
             \<and> sorted_items series = Inr items
             \<and> wallet_gain scipy am src all_txs (wb_wallet_address (snd gb)) (map fst items)
                  (map snd items) = Inr (fst gb))"
  using assms
proof (induction wallet_series_dict arbitrary: xs)
  case Nil
  then show ?case by simp
next
  case (Cons entry rest)
  obtain wallet_addr series where entry: "entry = (wallet_addr, series)" by (cases entry)
  have step: ?case if "per_wallet_loop scipy am src c all_txs rest = Inr ys" "gb \<in> set ys" for ys
    using Cons.IH [OF that] by auto
  show ?case
  proof (cases "series = []")
    case True
    with Cons.prems(1) entry have "per_wallet_loop scipy am src c all_txs rest = Inr xs" by simp
    from step [OF this Cons.prems(2)] show ?thesis .
  next
    case False
    from Cons.prems(1) entry False obtain items where items: "sorted_items series = Inr items"
      by (cases "sorted_items series") simp_all
    show ?thesis
    proof (cases "wallet_gain scipy am src all_txs wallet_addr (map fst items) (map snd items)")
      case (Inl e)
      with Cons.prems(1) entry False items
      have "per_wallet_loop scipy am src c all_txs rest = Inr xs" by simp
      from step [OF this Cons.prems(2)] show ?thesis .
    next
      case (Inr g)
      let ?b = "\<lparr>wb_wallet_address = wallet_addr, wmax_usd = max 0 (c * g),
                 v_t1_usd = (if length (map snd items) > 0 then last (map snd items) else 0)\<rparr>"
      show ?thesis
      proof (cases "WalletBreakdown_post_init ?b")
        case i2: (Inl e)
        with Cons.prems(1) entry False items Inr
        have "per_wallet_loop scipy am src c all_txs rest = Inr xs" by (simp add: Let_def)
        from step [OF this Cons.prems(2)] show ?thesis .
      next
        case r2: (Inr b)
        then have b: "b = ?b"
          by (auto simp: WalletBreakdown_post_init_def split: if_splits)
        from Cons.prems(1) entry False items Inr r2 obtain ys where
          ys: "per_wallet_loop scipy am src c all_txs rest = Inr ys" and xs: "xs = (g, b) # ys"
          by (cases "per_wallet_loop scipy am src c all_txs rest") (auto simp: Let_def)
        from Cons.prems(2) xs consider "gb = (g, b)" | "gb \<in> set ys" by auto
        then show ?thesis
        proof cases
          case 1
          with b entry False items Inr show ?thesis by auto
        next
          case 2
          from step [OF ys 2] show ?thesis .
        qed
      qed
    qed
  qed
qed

lemma caps_sum_lower:
  assumes "0 \<le> (c::real)"
  shows "c * max 0 (sum_list gs) \<le> sum_list (map (\<lambda>g. max 0 (c * g)) gs)"
proof -
  have a: "c * sum_list gs \<le> sum_list (map (\<lambda>g. max 0 (c * g)) gs)"
    by (induction gs) (auto simp: algebra_simps max_def)
  have b: "0 \<le> sum_list (map (\<lambda>g. max 0 (c * g)) gs)"
    by (induction gs) (auto simp: max_def)
  show ?thesis
  proof (cases "0 \<le> sum_list gs")
    case True
    with a show ?thesis by (simp add: max_def)
  next
    case False
    with b show ?thesis by (simp add: max_def)
  qed
qed

lemma caps_sum_nonneg:
  assumes "0 \<le> (c::real)" and "list_all (\<lambda>g. 0 \<le> g) gs"
  shows "sum_list (map (\<lambda>g. max 0 (c * g)) gs) = c * max 0 (sum_list gs)"
proof -
  from assms have a: "sum_list (map (\<lambda>g. max 0 (c * g)) gs) = c * sum_list gs"
    by (induction gs) (auto simp: algebra_simps max_def)
  from assms(2) have "0 \<le> sum_list gs"
    by (induction gs) auto
  with a show ?thesis by (simp add: max_def)
qed

lemma per_wallet_loop_returns:
  assumes "list_all (\<lambda>entry. list_all (\<lambda>kv. is_aware (fst kv)) (snd entry)) wallet_series_dict"
  shows "\<exists>xs. per_wallet_loop scipy am src c all_txs wallet_series_dict = Inr xs"
  using assms
proof (induction wallet_series_dict)
  case Nil
  then show ?case by simp
next
  case (Cons entry rest)
  obtain wallet_addr series where entry: "entry = (wallet_addr, series)" by (cases entry)
  from Cons obtain ys where ys: "per_wallet_loop scipy am src c all_txs rest = Inr ys" by auto
  from Cons.prems entry have "sorted_items series
      = Inr (sort_key (\<lambda>kv. utc_instant (fst kv)) series)"
    by (simp add: sorted_items_def)
  with entry ys show ?case
    by (simp add: Let_def split: sum.splits)
qed

text \<open>
  C9 states that the caps of the listed wallets add up to
  \<open>safety_factor * max(0, total_gain)\<close>.  With safety factor 1 and two wallets whose
  gains are 10 and -5, the caps are 10 and 0: their sum is 10, and
  \<open>safety_factor * max(0, total_gain)\<close> is 5.
\<close>

theorem wallet_caps_sum_counterexample:
  "calculate_per_wallet_wmax None ''none'' ''timestamp'' 1 []
     [(''addr1a'', [(Aware 0 0, 100), (Aware 3600000000 0, 110)]),
      (''addr1b'', [(Aware 0 0, 100), (Aware 3600000000 0, 95)])]
     = Inr [\<lparr>wb_wallet_address = ''addr1a'', wmax_usd = 10, v_t1_usd = 110\<rparr>,
            \<lparr>wb_wallet_address = ''addr1b'', wmax_usd = 0, v_t1_usd = 95\<rparr>]
   \<and> listed_wallet_gains None ''none'' ''timestamp'' 1 []
       [(''addr1a'', [(Aware 0 0, 100), (Aware 3600000000 0, 110)]),
        (''addr1b'', [(Aware 0 0, 100), (Aware 3600000000 0, 95)])] = Inr [10, - 5]
   \<and> sum_list (map wmax_usd [\<lparr>wb_wallet_address = ''addr1a'', wmax_usd = 10, v_t1_usd = 110\<rparr>,
                               \<lparr>wb_wallet_address = ''addr1b'', wmax_usd = 0, v_t1_usd = 95\<rparr>])
       \<noteq> 1 * max 0 (sum_list [10, - 5 :: real])"
  by (simp add: wallet_defs gain_pipeline_defs upt_rec)

text \<open>
  C9 as amended: in a wallet breakdown every listed wallet is a wallet of the series
  dict with a non-empty series, and its cap is \<open>max(0, safety_factor * gain)\<close> for
  the gain of that wallet (wallets without data are not listed); for a non-negative
  safety factor the sum of the caps is at least \<open>safety_factor * max(0, total_gain)\<close>,
  and equal to it when no listed wallet has a negative gain.
\<close>

theorem wallet_breakdown_caps:
  assumes "calculate_per_wallet_wmax scipy alignment_method tx_timestamp_source safety_factor_c
             all_txs wallet_series_dict = Inr wbs"
  shows "\<exists>gs. listed_wallet_gains scipy alignment_method tx_timestamp_source safety_factor_c
                all_txs wallet_series_dict = Inr gs
             \<and> length gs = length wbs
             \<and> (\<forall>k < length wbs.
                   wmax_usd (wbs ! k) = max 0 (safety_factor_c * gs ! k)
                 \<and> (\<exists>series items.
                       (wb_wallet_address (wbs ! k), series) \<in> set wallet_series_dict
                     \<and> series \<noteq> []
                     \<and> sorted_items series = Inr items
                     \<and> wallet_gain scipy alignment_method tx_timestamp_source all_txs
                          (wb_wallet_address (wbs ! k)) (map fst items) (map snd items)
                         = Inr (gs ! k)))
             \<and> (0 \<le> safety_factor_c \<longrightarrow>
                   safety_factor_c * max 0 (sum_list gs) \<le> sum_list (map wmax_usd wbs))
             \<and> (0 \<le> safety_factor_c \<longrightarrow> list_all (\<lambda>g. 0 \<le> g) gs \<longrightarrow>
                   sum_list (map wmax_usd wbs) = safety_factor_c * max 0 (sum_list gs))"
proof -
  from assms obtain xs where
    xs: "per_wallet_loop scipy alignment_method tx_timestamp_source safety_factor_c all_txs
           wallet_series_dict = Inr xs" and wbs: "wbs = map snd xs"
    by (auto simp: calculate_per_wallet_wmax_def split: sum.splits)
  let ?gs = "map fst xs"
  have gs: "listed_wallet_gains scipy alignment_method tx_timestamp_source safety_factor_c
              all_txs wallet_series_dict = Inr ?gs"
    using xs by (simp add: listed_wallet_gains_def)
  have entry: "wmax_usd (wbs ! k) = max 0 (safety_factor_c * ?gs ! k)
       \<and> (\<exists>series items.
             (wb_wallet_address (wbs ! k), series) \<in> set wallet_series_dict \<and> series \<noteq> []
             \<and> sorted_items series = Inr items
             \<and> wallet_gain scipy alignment_method tx_timestamp_source all_txs
                  (wb_wallet_address (wbs ! k)) (map fst items) (map snd items)
                 = Inr (?gs ! k))" if "k < length wbs" for k
  proof -
    from that wbs have "xs ! k \<in> set xs" by simp
    from per_wallet_loop_entries [OF xs this] that wbs show ?thesis by simp
  qed
  have caps: "map wmax_usd wbs = map (\<lambda>g. max 0 (safety_factor_c * g)) ?gs"
    using entry wbs by (intro nth_equalityI) simp_all
  have lower: "0 \<le> safety_factor_c \<longrightarrow>
      safety_factor_c * max 0 (sum_list ?gs) \<le> sum_list (map wmax_usd wbs)"
    unfolding caps using caps_sum_lower by blast
  have equal: "0 \<le> safety_factor_c \<longrightarrow> list_all (\<lambda>g. 0 \<le> g) ?gs \<longrightarrow>
      sum_list (map wmax_usd wbs) = safety_factor_c * max 0 (sum_list ?gs)"
    unfolding caps using caps_sum_nonneg by blast
  from gs entry lower equal wbs show ?thesis by (intro exI [of _ ?gs]) simp
qed

theorem wallet_breakdown_caps_witness:
  "calculate_per_wallet_wmax None ''none'' ''timestamp'' (1 / 2) []
     [(''addr1a'', [(Aware 0 0, 100), (Aware 3600000000 0, 110)]),
      (''addr1b'', []),
      (''addr1c'', [(Aware 0 0, 100), (Aware 3600000000 0, 105)])]
     = Inr [\<lparr>wb_wallet_address = ''addr1a'', wmax_usd = 5, v_t1_usd = 110\<rparr>,
            \<lparr>wb_wallet_address = ''addr1c'', wmax_usd = 5 / 2, v_t1_usd = 105\<rparr>]
   \<and> (0 :: real) \<le> 1 / 2
   \<and> list_all (\<lambda>g. 0 \<le> g) [10, 5 :: real]
   \<and> listed_wallet_gains None ''none'' ''timestamp'' (1 / 2) []
       [(''addr1a'', [(Aware 0 0, 100), (Aware 3600000000 0, 110)]),
        (''addr1b'', []),
        (''addr1c'', [(Aware 0 0, 100), (Aware 3600000000 0, 105)])] = Inr [10, 5]
   \<and> sum_list (map wmax_usd [\<lparr>wb_wallet_address = ''addr1a'', wmax_usd = 5, v_t1_usd = 110\<rparr>,
                               \<lparr>wb_wallet_address = ''addr1c'', wmax_usd = 5 / 2, v_t1_usd = 105\<rparr>])
       = (1 / 2) * max 0 (sum_list [10, 5 :: real])"
proof -
  let ?dict = "[(''addr1a'', [(Aware 0 0, 100 :: real), (Aware 3600000000 0, 110)]),
      (''addr1b'', []),
      (''addr1c'', [(Aware 0 0, 100), (Aware 3600000000 0, 105)])]"
  let ?wbs = "[\<lparr>wb_wallet_address = ''addr1a'', wmax_usd = 5, v_t1_usd = 110\<rparr>,
            \<lparr>wb_wallet_address = ''addr1c'', wmax_usd = 5 / 2, v_t1_usd = 105\<rparr>]"
  have h: "calculate_per_wallet_wmax None ''none'' ''timestamp'' (1 / 2) [] ?dict = Inr ?wbs"
    by (simp add: wallet_defs gain_pipeline_defs upt_rec)
  have g: "listed_wallet_gains None ''none'' ''timestamp'' (1 / 2) [] ?dict = Inr [10, 5]"
    by (simp add: wallet_defs gain_pipeline_defs upt_rec)
  from wallet_breakdown_caps [OF h] g
  have "sum_list (map wmax_usd ?wbs) = (1 / 2) * max 0 (sum_list [10, 5 :: real])"
    by auto
  with h g show ?thesis by simp
qed

subsection \<open>The resolved index is in bounds (C10)\<close>

text \<open>
  C10: for a non-empty unified timebase, a transaction whose timestamp matches a
  timebase index (\<open>base_idx\<close> is the first match) and every alignment method, the
  index returned by \<^verbatim>\<open>choose_index_for_tx\<close> lies in
  \<open>[0, len(unified_timebase) - 1]\<close>.
\<close>

theorem resolved_index_in_bounds:
  assumes "unified_timebase \<noteq> []"
    and "filter (\<lambda>k. dt_eq (unified_timebase ! k) (timestamp tx)) [0..<length unified_timebase]
           = base_idx # rest"
  shows "0 \<le> choose_index_for_tx method unified_timebase
                (pos_mask_of position_timestamps_set unified_timebase) interpolated_positions
                window_bins z_threshold magnitude_band (int base_idx) tx
       \<and> choose_index_for_tx method unified_timebase
            (pos_mask_of position_timestamps_set unified_timebase) interpolated_positions
            window_bins z_threshold magnitude_band (int base_idx) tx
           < int (length unified_timebase)"
proof -
  from assms(2) have
    "base_idx \<in> set (filter (\<lambda>k. dt_eq (unified_timebase ! k) (timestamp tx))
                        [0..<length unified_timebase])"
    by simp
  then have "base_idx < length unified_timebase" by simp
  then show ?thesis
    by (intro choose_index_for_tx_range pos_mask_of_length) simp_all
qed

theorem resolved_index_in_bounds_witness:
  "[Aware 0 0, Aware 1000000 0, Aware 2000000 0] \<noteq> []
   \<and> filter (\<lambda>k. dt_eq ([Aware 0 0, Aware 1000000 0, Aware 2000000 0] ! k)
                    (timestamp \<lparr>timestamp = Aware 1000000 0, wallet_address = ''addr1'',
                       market_id = ''m'', asset_symbol = ''usdc'', amount = 100,
                       transaction_type = ''deposit'', tx_notes = None,
                       created_at = Aware 1000000 0\<rparr>))
        [0..<length [Aware 0 0, Aware 1000000 0, Aware 2000000 0]] = 1 # []
   \<and> 0 \<le> choose_index_for_tx ''snap_to_next_pos'' [Aware 0 0, Aware 1000000 0, Aware 2000000 0]
            (pos_mask_of [Aware 0 0, Aware 2000000 0]
               [Aware 0 0, Aware 1000000 0, Aware 2000000 0])
            (Some [100, 150, 200]) 8 3 (3 / 10, 15 / 10) (int 1)
            \<lparr>timestamp = Aware 1000000 0, wallet_address = ''addr1'',
                       market_id = ''m'', asset_symbol = ''usdc'', amount = 100,
                       transaction_type = ''deposit'', tx_notes = None,
                       created_at = Aware 1000000 0\<rparr>
   \<and> choose_index_for_tx ''snap_to_next_pos'' [Aware 0 0, Aware 1000000 0, Aware 2000000 0]
            (pos_mask_of [Aware 0 0, Aware 2000000 0]
               [Aware 0 0, Aware 1000000 0, Aware 2000000 0])
            (Some [100, 150, 200]) 8 3 (3 / 10, 15 / 10) (int 1)
            \<lparr>timestamp = Aware 1000000 0, wallet_address = ''addr1'',
                       market_id = ''m'', asset_symbol = ''usdc'', amount = 100,
                       transaction_type = ''deposit'', tx_notes = None,
                       created_at = Aware 1000000 0\<rparr>
       < int (length [Aware 0 0, Aware 1000000 0, Aware 2000000 0])"
proof -
  have f: "filter (\<lambda>k. dt_eq ([Aware 0 0, Aware 1000000 0, Aware 2000000 0] ! k)
                    (timestamp \<lparr>timestamp = Aware 1000000 0, wallet_address = ''addr1'',
                       market_id = ''m'', asset_symbol = ''usdc'', amount = 100,
                       transaction_type = ''deposit'', tx_notes = None,
                       created_at = Aware 1000000 0\<rparr>))
        [0..<length [Aware 0 0, Aware 1000000 0, Aware 2000000 0]] = 1 # []"
    by (simp add: upt_rec)
  have n: "[Aware 0 0, Aware 1000000 0, Aware 2000000 0] \<noteq> []" by simp
  from resolved_index_in_bounds [OF n f] f n show ?thesis by blast
qed

end
